theory Spec2Isabelle
  imports
    Main
    "HOL-Library.Char_ord"
    "HOL-Library.List_Lexorder"
    "HOL-Library.AList"
    "HOL-Library.Multiset"
begin

section \<open>Python values used by grouper/permissions.py\<close>

text \<open>
  Python strings are \<^typ>\<open>string\<close>; they are compared as Python compares them, character
  by character (the lexicographic order of \<open>List_Lexorder\<close> over \<open>Char_ord\<close>).
  A \<open>dict\<close> (and a \<open>defaultdict\<close>) is an association list in insertion order:
  \<^const>\<open>map_of\<close> reads a key, \<^const>\<open>AList.update\<close> overwrites the value of a key in
  place or appends a new key at the end, as assignment to \<open>d[k]\<close> does.
\<close>

type_synonym ('k, 'v) dict = "('k \<times> 'v) list"

text \<open>\<open>d[k]\<close> on a \<open>defaultdict(list)\<close> or \<open>defaultdict(dict)\<close>, read only.\<close>

definition dd_get :: "('k, 'v list) dict \<Rightarrow> 'k \<Rightarrow> 'v list" where
  "dd_get d k = (case map_of d k of None \<Rightarrow> [] | Some v \<Rightarrow> v)"

text \<open>\<open>d[k].append(v)\<close> on a \<open>defaultdict(list)\<close>.\<close>

definition dd_append :: "'k \<Rightarrow> 'v \<Rightarrow> ('k, 'v list) dict \<Rightarrow> ('k, 'v list) dict" where
  "dd_append k v d = AList.update k (dd_get d k @ [v]) d"

text \<open>The builtins \<open>any\<close> and \<open>all\<close> on a list of booleans.\<close>

definition py_any :: "bool list \<Rightarrow> bool" where
  "py_any bs = list_ex (\<lambda>b. b) bs"

definition py_all :: "bool list \<Rightarrow> bool" where
  "py_all bs = list_all (\<lambda>b. b) bs"

section \<open>Entities\<close>

text \<open>
  The rows of the models that the module reads and writes. Timestamps are natural numbers.
  \<open>Group.name\<close> is the group's \<open>groupname\<close>.
\<close>

record permission =
  p_id :: nat
  p_name :: string
  p_description :: string
  p_enabled :: bool
  p_audited :: bool

record group =
  g_id :: nat
  g_name :: string
  g_enabled :: bool
  g_email_address :: "string option"

record user =
  u_id :: nat
  u_name :: string

record permission_map =
  pm_permission_id :: nat
  pm_group_id :: nat
  pm_argument :: string
  pm_granted_on :: nat

text \<open>
  A row of the query
  \<open>session.query(Permission.name, PermissionMap.argument, PermissionMap.granted_on, Group)\<close>.
\<close>

record grant_row =
  gr_name :: string
  gr_argument :: string
  gr_granted_on :: nat
  gr_Group :: group

text \<open>
  A permission request. Its relationship attributes \<open>request.requester\<close>,
  \<open>request.group\<close> and \<open>request.permission\<close> are the rows they refer to;
  \<open>request.group_id\<close> is \<open>g_id (pr_group request)\<close>, and likewise for the other two.
\<close>

record permission_request =
  pr_id :: nat
  pr_requester :: user
  pr_group :: group
  pr_permission :: permission
  pr_argument :: string
  pr_status :: string
  pr_requested_at :: nat

record status_change =
  sc_id :: nat
  sc_request_id :: nat
  sc_user_id :: nat
  sc_from_status :: "string option"
  sc_to_status :: string
  sc_change_at :: nat

record comment =
  c_obj_type :: nat
  c_obj_pk :: nat
  c_user_id :: nat
  c_comment :: string
  c_created_on :: nat

record audit_entry =
  al_actor_id :: nat
  al_action :: string
  al_description :: string
  al_on_group_id :: nat
  al_on_user_id :: nat
  al_on_permission_id :: nat

datatype ctx_value = Str string | Num nat

record email =
  em_recipients :: "string set"
  em_subject :: string
  em_template :: string
  em_context :: "(string \<times> ctx_value) list"

section \<open>The session\<close>

text \<open>
  The tables of the store. A session holds two copies: \<open>view\<close> is what the queries of
  the session see (the committed rows and the session's own uncommitted changes),
  \<open>durable\<close> is what has been committed. \<open>session.commit()\<close> makes the view durable,
  \<open>session.rollback()\<close> discards the uncommitted changes. Primary keys are given out when
  a row is added, so \<open>session.flush()\<close> changes nothing in the model. Mail handed to
  \<open>send_email\<close> is kept in \<open>outbox\<close>.
\<close>

record tables =
  permissions :: "permission list"
  groups :: "group list"
  permission_maps :: "permission_map list"
  requests :: "permission_request list"
  status_changes :: "status_change list"
  comments :: "comment list"
  audit_log :: "audit_entry list"
  counters :: "(string, nat) dict"

record session =
  view :: tables
  durable :: tables
  outbox :: "email list"

definition commit :: "session \<Rightarrow> session" where
  "commit s = s\<lparr>durable := view s\<rparr>"

definition rollback :: "session \<Rightarrow> session" where
  "rollback s = s\<lparr>view := durable s\<rparr>"

datatype error =
    AssertionError
  | IntegrityError
  | UserNotAuditor
  | RequestAlreadyExists
  | NoOwnersAvailable
  | RequestAlreadyGranted

section \<open>Collaborators and constants that the module imports\<close>

text \<open>
  What the module takes from the rest of grouper is a parameter of the model: the
  constants of \<open>grouper.constants\<close>, and the answers that the collaborators give during
  one call. \<open>ARGUMENT_VALIDATION env a\<close> says that
  \<open>re.match(ARGUMENT_VALIDATION + "$", a)\<close> finds a match;
  \<open>plugin_owners\<close> is \<open>get_plugin_proxy().get_owner_by_arg_by_perm(session)\<close>;
  \<open>my_permissions\<close> is \<open>Group.my_permissions()\<close>, a list of 5-tuples whose second and
  fourth components are a permission name and an argument;
  \<open>my_members\<close> lists the keys \<open>(type, name)\<close> of \<open>Group.my_members()\<close>;
  \<open>controllers\<close> and \<open>is_auditor\<close> are what \<open>grouper.audit\<close> knows of a group and a
  user; \<open>groups_by_user\<close> is \<open>get_groups_by_user(session, user)\<close>;
  \<open>status_change_obj_type\<close> is \<open>OBJ_TYPES_IDX.index("PermissionRequestStatusChange")\<close>;
  \<open>render_subject permission group\<close> renders the subject template;
  \<open>reference_id\<close> is \<open>PermissionRequest.reference_id\<close>;
  \<open>utcnow\<close> is the reading of \<open>datetime.utcnow()\<close>.
\<close>

record env =
  PERMISSION_GRANT :: string
  PERMISSION_ADMIN :: string
  ARGUMENT_VALIDATION :: "string \<Rightarrow> bool"
  plugin_owners :: "(string, (string, group list) dict) dict list"
  my_permissions :: "group \<Rightarrow> (nat \<times> string \<times> nat \<times> string \<times> nat) list"
  my_members :: "group \<Rightarrow> (string \<times> string) list"
  controllers :: "group \<Rightarrow> user list"
  is_auditor :: "user \<Rightarrow> bool"
  groups_by_user :: "user \<Rightarrow> (group \<times> string) list"
  status_change_obj_type :: nat
  render_subject :: "string \<Rightarrow> string \<Rightarrow> string"
  reference_id :: "permission_request \<Rightarrow> string"
  utcnow :: nat

text \<open>
  Modelled from the spec: \<open>grouper.util.matches_glob\<close> is not part of the module. The spec
  (4.1) has pattern characters other than \<open>*\<close> match literally and \<open>*\<close> match any run of
  zero or more characters.
\<close>

fun matches_glob :: "string \<Rightarrow> string \<Rightarrow> bool" where
  "matches_glob [] text = (text = [])"
| "matches_glob (c # glob) text =
     (if c = CHR ''*''
      then matches_glob glob text
           \<or> (case text of [] \<Rightarrow> False | _ # rest \<Rightarrow> matches_glob (c # glob) rest)
      else (case text of [] \<Rightarrow> False | d # rest \<Rightarrow> c = d \<and> matches_glob glob rest))"

text \<open>
  Modelled from the spec: \<open>grouper.audit.assert_controllers_are_auditors\<close> is not part of
  the module. The spec (4.6, 6) has it fail when any controller of the group is not an
  auditor.
\<close>

definition assert_controllers_are_auditors :: "env \<Rightarrow> group \<Rightarrow> error + unit" where
  "assert_controllers_are_auditors env grp =
     (if list_all (is_auditor env) (controllers env grp) then Inr () else Inl UserNotAuditor)"

section \<open>The permission catalog and the grant reducer\<close>

text \<open>\<open>order_by(asc(Permission.name))\<close> is a stable sort on the name.\<close>

definition get_all_permissions :: "session \<Rightarrow> bool \<Rightarrow> permission list" where
  "get_all_permissions session include_disabled =
     sort_key p_name
       (if \<not> include_disabled then filter p_enabled (permissions (view session))
        else permissions (view session))"

text \<open>\<open>{permission.name: permission for permission in perms}\<close>\<close>

definition permissions_by_name :: "permission list \<Rightarrow> (string, permission) dict" where
  "permissions_by_name perms = fold (\<lambda>permission d. AList.update (p_name permission) permission d) perms []"

text \<open>\<open>s.split("/", 1)\<close>: one string when there is no slash, else the two sides of the first.\<close>

definition split_once :: "string \<Rightarrow> string list" where
  "split_once s =
     (case dropWhile (\<lambda>c. c \<noteq> CHR ''/'') s of
        [] \<Rightarrow> [s]
      | _ # rest \<Rightarrow> [takeWhile (\<lambda>c. c \<noteq> CHR ''/'') s, rest])"

text \<open>
  What one iteration of \<open>for grant in grants\<close> appends to \<open>result\<close>, once the assertion
  on the grant's name has passed.
\<close>

definition grantable_of_grant ::
  "(string, permission) dict \<Rightarrow> 'a grant_row_scheme \<Rightarrow> (permission \<times> string) list" where
  "grantable_of_grant all_permissions grant =
     (let grantable = split_once (gr_argument grant) in
      if grantable = [] then []
      else map (\<lambda>(name, permission_obj).
                  (permission_obj, if length grantable > 1 then grantable ! 1 else ''*''))
               (filter (\<lambda>(name, permission_obj). matches_glob (grantable ! 0) name)
                       all_permissions))"

fun filter_grantable_loop ::
  "env \<Rightarrow> (string, permission) dict \<Rightarrow> 'a grant_row_scheme list \<Rightarrow>
   (permission \<times> string) list \<Rightarrow> error + (permission \<times> string) list" where
  "filter_grantable_loop env all_permissions [] result = Inr result"
| "filter_grantable_loop env all_permissions (grant # grants) result =
     (if gr_name grant \<noteq> PERMISSION_GRANT env then Inl AssertionError
      else filter_grantable_loop env all_permissions grants
             (result @ grantable_of_grant all_permissions grant))"

text \<open>The catalog that \<open>filter_grantable_permissions\<close> works on: the one given, or all enabled permissions.\<close>

definition catalog_or_default ::
  "session \<Rightarrow> (string, permission) dict option \<Rightarrow> (string, permission) dict" where
  "catalog_or_default session all_permissions_arg =
     (case all_permissions_arg of
        None \<Rightarrow> permissions_by_name (get_all_permissions session False)
      | Some d \<Rightarrow> d)"

definition filter_grantable_permissions ::
  "env \<Rightarrow> session \<Rightarrow> 'a grant_row_scheme list \<Rightarrow> (string, permission) dict option \<Rightarrow>
   error + (permission \<times> string) list" where
  "filter_grantable_permissions env session grants all_permissions_arg =
     (let all_permissions = catalog_or_default session all_permissions_arg
      in case filter_grantable_loop env all_permissions grants [] of
           Inl e \<Rightarrow> Inl e
         | Inr result \<Rightarrow> Inr (sort_key (\<lambda>x. p_name (fst x) @ snd x) result))"

section \<open>The ownership resolver\<close>

text \<open>
  The keys of the owner map are permission names and the singleton \<open>GLOBAL_OWNERS\<close>.
\<close>

datatype owner_key = GLOBAL_OWNERS | Perm string

type_synonym owner_map = "(owner_key, (string, group list) dict) dict"

text \<open>\<open>owners_by_arg_by_perm[key][arg]\<close>, read only.\<close>

definition owners_at :: "('k, (string, 'g list) dict) dict \<Rightarrow> 'k \<Rightarrow> string \<Rightarrow> 'g list" where
  "owners_at m key arg = dd_get (dd_get m key) arg"

text \<open>
  \<open>owners_by_arg_by_perm[key][arg] += owners\<close> on the nested \<open>defaultdict\<close>;
  \<open>.append(group)\<close> is the case of one owner.
\<close>

definition owners_extend ::
  "'k \<Rightarrow> string \<Rightarrow> 'g list \<Rightarrow> ('k, (string, 'g list) dict) dict \<Rightarrow>
   ('k, (string, 'g list) dict) dict" where
  "owners_extend key arg owners m =
     AList.update key (AList.update arg (owners_at m key arg @ owners) (dd_get m key)) m"

definition all_group_permissions :: "tables \<Rightarrow> grant_row list" where
  "all_group_permissions t =
     [\<lparr>gr_name = p_name p, gr_argument = pm_argument pm,
        gr_granted_on = pm_granted_on pm, gr_Group = g\<rparr>.
        pm \<leftarrow> permission_maps t, g \<leftarrow> groups t, pm_group_id pm = g_id g,
        p \<leftarrow> permissions t, p_id p = pm_permission_id pm]"

text \<open>The loop \<open>for group in all_groups\<close>.\<close>

fun owners_of_groups ::
  "env \<Rightarrow> session \<Rightarrow> (string, permission) dict \<Rightarrow> (nat, grant_row list) dict \<Rightarrow> bool \<Rightarrow>
   group list \<Rightarrow> owner_map \<Rightarrow> error + owner_map" where
  "owners_of_groups env session all_permissions grants_by_group separate_global [] m = Inr m"
| "owners_of_groups env session all_permissions grants_by_group separate_global (grp # rest) m =
     (let group_permissions = dd_get grants_by_group (g_id grp) in
      if py_any (map (\<lambda>g. gr_name g = PERMISSION_ADMIN env) group_permissions)
      then
        (let m1 = fold (\<lambda>perm_name. owners_extend (Perm perm_name) ''*'' [grp])
                       (map fst all_permissions) m;
             m2 = (if separate_global then owners_extend GLOBAL_OWNERS ''*'' [grp] m1 else m1)
         in owners_of_groups env session all_permissions grants_by_group separate_global rest m2)
      else
        (let grants = filter (\<lambda>gp. gr_name gp = PERMISSION_GRANT env) group_permissions in
         case filter_grantable_permissions env session grants (Some all_permissions) of
           Inl e \<Rightarrow> Inl e
         | Inr grantable \<Rightarrow>
             owners_of_groups env session all_permissions grants_by_group separate_global rest
               (fold (\<lambda>(perm, arg). owners_extend (Perm (p_name perm)) arg [grp])
                     grantable m)))"

text \<open>The loop that merges the plugin results.\<close>

definition merge_plugin_owners ::
  "(string, (string, group list) dict) dict list \<Rightarrow> owner_map \<Rightarrow> owner_map" where
  "merge_plugin_owners plugin_results m =
     fold (\<lambda>res m1.
             fold (\<lambda>(perm, owners_by_arg) m2.
                     fold (\<lambda>(arg, owners) m3. owners_extend (Perm perm) arg owners m3)
                          owners_by_arg m2)
                  res m1)
          plugin_results m"

definition get_owners_by_grantable_permission ::
  "env \<Rightarrow> session \<Rightarrow> bool \<Rightarrow> error + owner_map" where
  "get_owners_by_grantable_permission env session separate_global =
     (let all_permissions = permissions_by_name (get_all_permissions session False);
          all_groups = filter g_enabled (groups (view session));
          grants_by_group =
            fold (\<lambda>grant d. dd_append (g_id (gr_Group grant)) grant d)
                 (all_group_permissions (view session)) []
      in case owners_of_groups env session all_permissions grants_by_group separate_global
                all_groups [] of
           Inl e \<Rightarrow> Inl e
         | Inr m \<Rightarrow> Inr (merge_plugin_owners (plugin_owners env) m))"

section \<open>The argument-set reducer: \<open>get_grantable_permissions._reduce_args\<close>\<close>

text \<open>
  The closure variable \<open>restricted_ownership_permissions\<close> is the first parameter. The
  permission is named by a key of the owner map.
  \<open>sorted({a for a in args if a != "*"})\<close> and \<open>sorted(set(args))\<close> sort the distinct
  elements.
\<close>

definition reduce_args :: "'k list \<Rightarrow> 'k \<Rightarrow> string list \<Rightarrow> string list" where
  "reduce_args restricted_ownership_permissions perm_name args =
     (let non_wildcard_args = map (\<lambda>a. a \<noteq> ''*'') args in
      if restricted_ownership_permissions \<noteq> []
         \<and> perm_name \<in> set restricted_ownership_permissions
         \<and> py_any non_wildcard_args
      then sort (remdups (filter (\<lambda>a. a \<noteq> ''*'') args))
      else if py_all non_wildcard_args then sort (remdups args)
      else [''*''])"

definition get_grantable_permissions ::
  "env \<Rightarrow> session \<Rightarrow> string list \<Rightarrow> error + (owner_key, string list) dict" where
  "get_grantable_permissions env session restricted_ownership_permissions =
     (case get_owners_by_grantable_permission env session False of
        Inl e \<Rightarrow> Inl e
      | Inr owners_by_arg_by_perm \<Rightarrow>
          (let args_by_perm =
                 fold (\<lambda>(permission, owners_by_arg) d.
                         fold (\<lambda>argument d1. dd_append permission argument d1)
                              (map fst owners_by_arg) d)
                      owners_by_arg_by_perm []
           in Inr (map (\<lambda>(p, a). (p, reduce_args (map Perm restricted_ownership_permissions) p a))
                       args_by_perm)))"

section \<open>Owner lookup for a concrete request\<close>

definition get_owner_arg_list ::
  "env \<Rightarrow> session \<Rightarrow> permission \<Rightarrow> string \<Rightarrow> owner_map option \<Rightarrow>
   error + (group \<times> string) list" where
  "get_owner_arg_list env session permission argument owners_by_arg_by_perm_arg =
     (case (case owners_by_arg_by_perm_arg of
              None \<Rightarrow> get_owners_by_grantable_permission env session False
            | Some m \<Rightarrow> Inr m) of
        Inl e \<Rightarrow> Inl e
      | Inr owners_by_arg_by_perm \<Rightarrow>
          Inr (concat (map (\<lambda>(arg, owners).
                              if matches_glob arg argument
                              then map (\<lambda>owner. (owner, arg)) owners else [])
                           (dd_get owners_by_arg_by_perm (Perm (p_name permission))))))"

section \<open>The request workflow\<close>

text \<open>The primary key that the store gives to a new row: one more than the largest in use.\<close>

definition next_id :: "nat list \<Rightarrow> nat" where
  "next_id ids = Suc (fold max ids 0)"

definition add_request :: "permission_request \<Rightarrow> session \<Rightarrow> session" where
  "add_request r s = s\<lparr>view := (view s)\<lparr>requests := requests (view s) @ [r]\<rparr>\<rparr>"

definition add_status_change :: "status_change \<Rightarrow> session \<Rightarrow> session" where
  "add_status_change sc s = s\<lparr>view := (view s)\<lparr>status_changes := status_changes (view s) @ [sc]\<rparr>\<rparr>"

definition add_comment :: "comment \<Rightarrow> session \<Rightarrow> session" where
  "add_comment c s = s\<lparr>view := (view s)\<lparr>comments := comments (view s) @ [c]\<rparr>\<rparr>"

definition add_permission_map :: "permission_map \<Rightarrow> session \<Rightarrow> session" where
  "add_permission_map pm s =
     s\<lparr>view := (view s)\<lparr>permission_maps := permission_maps (view s) @ [pm]\<rparr>\<rparr>"

text \<open>\<open>request.status = new_status\<close> on the request row of the session.\<close>

definition set_request_status :: "nat \<Rightarrow> string \<Rightarrow> session \<Rightarrow> session" where
  "set_request_status request_id new_status s =
     s\<lparr>view := (view s)\<lparr>requests :=
          map (\<lambda>r. if pr_id r = request_id then r\<lparr>pr_status := new_status\<rparr> else r)
              (requests (view s))\<rparr>\<rparr>"

text \<open>
  Modelled from the spec: \<open>Counter.incr\<close>, \<open>AuditLog.log\<close> and \<open>send_email\<close> are not part
  of the module. The counter of the given name goes up by one (from zero when it is new);
  the audit log records the actor, the action and its targets (spec 6, \<open>AuditLog.record\<close>);
  the notifier takes recipients, subject, template name and context (spec 6,
  \<open>Notifier.send\<close>).
\<close>

definition Counter_incr :: "string \<Rightarrow> session \<Rightarrow> session" where
  "Counter_incr name s =
     s\<lparr>view := (view s)\<lparr>counters :=
          AList.update name (case map_of (counters (view s)) name of None \<Rightarrow> 1 | Some n \<Rightarrow> Suc n)
            (counters (view s))\<rparr>\<rparr>"

definition AuditLog_log :: "audit_entry \<Rightarrow> session \<Rightarrow> session" where
  "AuditLog_log entry s = s\<lparr>view := (view s)\<lparr>audit_log := audit_log (view s) @ [entry]\<rparr>\<rparr>"

definition send_email ::
  "string set \<Rightarrow> string \<Rightarrow> string \<Rightarrow> (string \<times> ctx_value) list \<Rightarrow> session \<Rightarrow> session" where
  "send_email recipients subject template context s =
     s\<lparr>outbox := outbox s @
          [\<lparr>em_recipients = recipients, em_subject = subject, em_template = template,
            em_context = context\<rparr>]\<rparr>"

text \<open>
  \<open>grant_permission\<close>: the assertion on the argument, then the new mapping, the counter and
  the commit. Its docstring has it fail when the (permission, argument) has already been
  granted to the group, and \<open>update_request\<close> catches \<open>IntegrityError\<close> from it: the flush
  of a mapping whose triple is already in the table raises \<open>IntegrityError\<close>, with the
  mapping still pending in the session.
\<close>

definition grant_permission ::
  "env \<Rightarrow> session \<Rightarrow> nat \<Rightarrow> nat \<Rightarrow> string \<Rightarrow> (error + unit) \<times> session" where
  "grant_permission env session group_id permission_id argument =
     (if \<not> ARGUMENT_VALIDATION env argument then (Inl AssertionError, session)
      else
        (let mapping = \<lparr>pm_permission_id = permission_id, pm_group_id = group_id,
                         pm_argument = argument, pm_granted_on = utcnow env\<rparr>;
             s1 = add_permission_map mapping session
         in if list_ex (\<lambda>pm. pm_permission_id pm = permission_id \<and> pm_group_id pm = group_id
                               \<and> pm_argument pm = argument)
                       (permission_maps (view session))
            then (Inl IntegrityError, s1)
            else (Inr (), commit (Counter_incr ''updates'' s1))))"

definition create_request ::
  "env \<Rightarrow> session \<Rightarrow> user \<Rightarrow> group \<Rightarrow> permission \<Rightarrow> string \<Rightarrow> string \<Rightarrow>
   (error + permission_request) \<times> session" where
  "create_request env session usr grp permission argument reason =
     (if list_ex (\<lambda>(_, existing_perm_name, _, existing_perm_argument, _).
                    p_name permission = existing_perm_name
                    \<and> argument = existing_perm_argument)
                 (my_permissions env grp)
      then (Inl RequestAlreadyGranted, session)
      else
        (let existing_count =
               length (filter (\<lambda>r. g_id (pr_group r) = g_id grp
                                    \<and> p_id (pr_permission r) = p_id permission
                                    \<and> pr_argument r = argument
                                    \<and> pr_status r = ''pending'')
                              (requests (view session)))
         in if existing_count > 0 then (Inl RequestAlreadyExists, session)
            else
              (case get_owners_by_grantable_permission env session True of
                 Inl e \<Rightarrow> (Inl e, session)
               | Inr owners_by_arg_by_perm \<Rightarrow>
                   (case get_owner_arg_list env session permission argument
                           (Some owners_by_arg_by_perm) of
                      Inl e \<Rightarrow> (Inl e, session)
                    | Inr owner_arg_list \<Rightarrow>
                        if owner_arg_list = [] then (Inl NoOwnersAvailable, session)
                        else
                          (case (if p_audited permission
                                 then assert_controllers_are_auditors env grp else Inr ()) of
                             Inl e \<Rightarrow> (Inl e, session)
                           | Inr _ \<Rightarrow>
                               (let pending_status = ''pending'';
                                    now = utcnow env;
                                    request =
                                      \<lparr>pr_id = next_id (map pr_id (requests (view session))),
                                       pr_requester = usr, pr_group = grp,
                                       pr_permission = permission, pr_argument = argument,
                                       pr_status = pending_status, pr_requested_at = now\<rparr>;
                                    s1 = add_request request session;
                                    request_status_change =
                                      \<lparr>sc_id = next_id (map sc_id (status_changes (view s1))),
                                       sc_request_id = pr_id request, sc_user_id = u_id usr,
                                       sc_from_status = None, sc_to_status = pending_status,
                                       sc_change_at = now\<rparr>;
                                    s2 = add_status_change request_status_change s1;
                                    s3 = add_comment
                                           \<lparr>c_obj_type = status_change_obj_type env,
                                            c_obj_pk = sc_id request_status_change,
                                            c_user_id = u_id usr, c_comment = reason,
                                            c_created_on = now\<rparr> s2;
                                    email_context =
                                      [(''user_name'', Str (u_name usr)),
                                       (''group_name'', Str (g_name grp)),
                                       (''permission_name'', Str (p_name permission)),
                                       (''argument'', Str argument),
                                       (''reason'', Str reason),
                                       (''request_id'', Num (pr_id request)),
                                       (''references_header'', Str (reference_id env request))];
                                    global_owners = owners_at owners_by_arg_by_perm GLOBAL_OWNERS ''*'';
                                    non_wildcard_owners =
                                      filter (\<lambda>grant. snd grant \<noteq> ''*'') owner_arg_list;
                                    non_global_owners =
                                      filter (\<lambda>grant. fst grant \<notin> set global_owners) owner_arg_list;
                                    mailto_owner_arg_list =
                                      (if non_wildcard_owners \<noteq> [] then non_wildcard_owners
                                       else if non_global_owners \<noteq> [] then non_global_owners
                                       else owner_arg_list);
                                    mail_to =
                                      concat (map (\<lambda>(owner, arg).
                                                     case g_email_address owner of
                                                       Some a \<Rightarrow>
                                                         if a \<noteq> [] then [a]
                                                         else map snd (filter (\<lambda>(t, u). t = ''User'')
                                                                              (my_members env owner))
                                                     | None \<Rightarrow>
                                                         map snd (filter (\<lambda>(t, u). t = ''User'')
                                                                         (my_members env owner)))
                                                  mailto_owner_arg_list);
                                    subject = render_subject env (p_name permission) (g_name grp)
                                in (Inr request,
                                    send_email (set mail_to) subject ''pending_permission_request''
                                      email_context s3)))))))"

definition get_pending_request_by_group :: "session \<Rightarrow> group \<Rightarrow> permission_request list" where
  "get_pending_request_by_group session grp =
     filter (\<lambda>r. pr_status r = ''pending'' \<and> g_id (pr_group r) = g_id grp)
            (requests (view session))"

definition can_approve_request ::
  "env \<Rightarrow> session \<Rightarrow> permission_request \<Rightarrow> user \<Rightarrow> nat set option \<Rightarrow> owner_map option \<Rightarrow>
   error + nat set" where
  "can_approve_request env session request owner group_ids_arg owners_by_arg_by_perm =
     (case get_owner_arg_list env session (pr_permission request) (pr_argument request)
             owners_by_arg_by_perm of
        Inl e \<Rightarrow> Inl e
      | Inr owner_arg_list \<Rightarrow>
          (let group_ids =
                 (case group_ids_arg of
                    None \<Rightarrow> set (map (\<lambda>(g, _). g_id g) (groups_by_user env owner))
                  | Some ids \<Rightarrow> ids)
           in Inr (group_ids \<inter> set (map (\<lambda>(owner_group, arg). g_id owner_group) owner_arg_list))))"

text \<open>
  \<open>update_request\<close>. The grant step is the \<open>try\<close> block: \<open>IntegrityError\<close> is caught and
  answered with \<open>session.rollback()\<close>, any other error leaves the function.
\<close>

definition update_request ::
  "env \<Rightarrow> session \<Rightarrow> permission_request \<Rightarrow> user \<Rightarrow> string \<Rightarrow> string \<Rightarrow>
   (error + unit) \<times> session" where
  "update_request env session request usr new_status comment_text =
     (if pr_status request = new_status then (Inr (), session)
      else
        (case (if new_status = ''actioned'' \<and> p_audited (pr_permission request)
               then assert_controllers_are_auditors env (pr_group request) else Inr ()) of
           Inl e \<Rightarrow> (Inl e, session)
         | Inr _ \<Rightarrow>
             (let now = utcnow env;
                  permission_status_change =
                    \<lparr>sc_id = next_id (map sc_id (status_changes (view session))),
                     sc_request_id = pr_id request, sc_user_id = u_id usr,
                     sc_from_status = Some (pr_status request), sc_to_status = new_status,
                     sc_change_at = now\<rparr>;
                  s1 = add_status_change permission_status_change session;
                  s2 = add_comment
                         \<lparr>c_obj_type = status_change_obj_type env,
                          c_obj_pk = sc_id permission_status_change,
                          c_user_id = u_id usr, c_comment = comment_text,
                          c_created_on = now\<rparr> s1;
                  s3 = commit (set_request_status (pr_id request) new_status s2)
              in case (if new_status = ''actioned''
                       then (case grant_permission env s3 (g_id (pr_group request))
                                    (p_id (pr_permission request)) (pr_argument request) of
                               (Inl IntegrityError, s) \<Rightarrow> (Inr (), rollback s)
                             | (Inl e, s) \<Rightarrow> (Inl e, s)
                             | (Inr u, s) \<Rightarrow> (Inr u, s))
                       else (Inr (), s3)) of
                   (Inl e, s4) \<Rightarrow> (Inl e, s4)
                 | (Inr _, s4) \<Rightarrow>
                     (let s5 = commit
                                 (AuditLog_log
                                    \<lparr>al_actor_id = u_id usr, al_action = ''update_perm_request'',
                                     al_description =
                                       ''updated permission request to status: '' @ new_status,
                                     al_on_group_id = g_id (pr_group request),
                                     al_on_user_id = u_id (pr_requester request),
                                     al_on_permission_id = p_id (pr_permission request)\<rparr> s4);
                          subject = ''Re: '' @ render_subject env (p_name (pr_permission request))
                                                  (g_name (pr_group request));
                          email_template =
                            (if new_status = ''actioned'' then ''permission_request_actioned''
                             else ''permission_request_cancelled'');
                          email_context =
                            [(''group_name'', Str (g_name (pr_group request))),
                             (''action_taken_by'', Str (u_name usr)),
                             (''reason'', Str comment_text),
                             (''permission_name'', Str (p_name (pr_permission request))),
                             (''argument'', Str (pr_argument request))]
                      in (Inr (),
                          send_email {u_name (pr_requester request)} subject email_template
                            email_context s5)))))"

section \<open>Listing requests\<close>

text \<open>
  The slice \<open>xs[start:stop]\<close> of a list: an index below zero counts from the end, and both
  ends are clipped to the list.
\<close>

definition py_slice :: "'a list \<Rightarrow> int \<Rightarrow> int \<Rightarrow> 'a list" where
  "py_slice xs start stop =
     (let n = int (length xs);
          lo = (if start < 0 then max (start + n) 0 else min start n);
          hi = (if stop < 0 then max (stop + n) 0 else min stop n)
      in take (nat (hi - lo)) (drop (nat lo) xs))"

text \<open>
  The list comprehension \<open>[request for request in all_requests if can_approve_request(...)]\<close>;
  the set that \<open>can_approve_request\<close> returns is true when it is not empty.
\<close>

fun approvable_requests ::
  "env \<Rightarrow> session \<Rightarrow> user \<Rightarrow> nat set \<Rightarrow> owner_map \<Rightarrow> permission_request list \<Rightarrow>
   error + permission_request list" where
  "approvable_requests env session owner group_ids obo [] = Inr []"
| "approvable_requests env session owner group_ids obo (request # rest) =
     (case can_approve_request env session request owner (Some group_ids) (Some obo) of
        Inl e \<Rightarrow> Inl e
      | Inr ids \<Rightarrow>
          (case approvable_requests env session owner group_ids obo rest of
             Inl e \<Rightarrow> Inl e
           | Inr kept \<Rightarrow> Inr (if ids \<noteq> {} then request # kept else kept)))"

text \<open>
  The local variable \<open>requests\<close> of \<open>get_requests\<close> before it is sliced: the requests of the
  given status and requester, newest first, that the owner can approve.
\<close>

definition matching_requests ::
  "env \<Rightarrow> session \<Rightarrow> string option \<Rightarrow> user option \<Rightarrow> user option \<Rightarrow> owner_map option \<Rightarrow>
   error + permission_request list" where
  "matching_requests env session status owner requester owners_by_arg_by_perm_arg =
     (let q0 = requests (view session);
          q1 = (case status of
                  None \<Rightarrow> q0
                | Some st \<Rightarrow> if st \<noteq> [] then filter (\<lambda>r. pr_status r = st) q0 else q0);
          q2 = (case requester of
                  None \<Rightarrow> q1
                | Some u \<Rightarrow> filter (\<lambda>r. u_id (pr_requester r) = u_id u) q1);
          all_requests = rev (sort_key pr_requested_at q2)
      in case (case owners_by_arg_by_perm_arg of
                 None \<Rightarrow> get_owners_by_grantable_permission env session False
               | Some m \<Rightarrow> Inr m) of
           Inl e \<Rightarrow> Inl e
         | Inr owners_by_arg_by_perm \<Rightarrow>
             (case owner of
                None \<Rightarrow> Inr all_requests
              | Some ow \<Rightarrow>
                  approvable_requests env session ow
                    (set (map (\<lambda>(g, _). g_id g) (groups_by_user env ow)))
                    owners_by_arg_by_perm all_requests))"

text \<open>The namedtuple \<open>Requests\<close>.\<close>

record Requests =
  rq_requests :: "permission_request list"
  rq_status_change_by_request_id :: "(nat, status_change list) dict"
  rq_comment_by_status_change_id :: "(nat, comment) dict"

definition get_requests ::
  "env \<Rightarrow> session \<Rightarrow> string option \<Rightarrow> int \<Rightarrow> int \<Rightarrow> user option \<Rightarrow> user option \<Rightarrow>
   owner_map option \<Rightarrow> error + (Requests \<times> nat)" where
  "get_requests env session status limit offset owner requester owners_by_arg_by_perm_arg =
     (case matching_requests env session status owner requester owners_by_arg_by_perm_arg of
        Inl e \<Rightarrow> Inl e
      | Inr matching \<Rightarrow>
          (let total = length matching;
               sliced = py_slice matching offset limit;
               found_status_changes =
                 filter (\<lambda>sc. sc_request_id sc \<in> set (map pr_id sliced))
                        (status_changes (view session));
               status_change_by_request_id =
                 (if sliced = [] then []
                  else fold (\<lambda>sc d. dd_append (sc_request_id sc) sc d) found_status_changes []);
               found_comments =
                 filter (\<lambda>c. c_obj_type c = status_change_obj_type env
                              \<and> c_obj_pk c \<in> set (map sc_id found_status_changes))
                        (comments (view session));
               comment_by_status_change_id =
                 (if sliced = [] then []
                  else fold (\<lambda>c d. AList.update (c_obj_pk c) c d) found_comments [])
           in Inr (\<lparr>rq_requests = sliced,
                     rq_status_change_by_request_id = status_change_by_request_id,
                     rq_comment_by_status_change_id = comment_by_status_change_id\<rparr>,
                   total)))"

section \<open>The permission-intersection engine\<close>

text \<open>
  The items of \<open>permission_intersection\<close> are objects with a \<open>name\<close> and an
  \<open>argument\<close> (and possibly more fields, which the record scheme leaves open).
\<close>

record grant_item =
  gi_name :: string
  gi_argument :: string

text \<open>\<open>ret[perm.name][perm.argument] = perm\<close> on \<open>ret = defaultdict(dict)\<close>.\<close>

definition permission_list_to_dict_step ::
  "'a grant_item_scheme \<Rightarrow> (string, (string, 'a grant_item_scheme) dict) dict \<Rightarrow>
   (string, (string, 'a grant_item_scheme) dict) dict" where
  "permission_list_to_dict_step perm ret =
     AList.update (gi_name perm)
       (AList.update (gi_argument perm) perm (dd_get ret (gi_name perm))) ret"

definition permission_list_to_dict ::
  "'a grant_item_scheme list \<Rightarrow> (string, (string, 'a grant_item_scheme) dict) dict" where
  "permission_list_to_dict perms = fold permission_list_to_dict_step perms []"

text \<open>One iteration of the loop \<open>for perm in perms_a\<close>; each \<open>continue\<close> ends it.\<close>

definition intersection_step ::
  "(string, (string, 'a grant_item_scheme) dict) dict \<Rightarrow> 'a grant_item_scheme \<Rightarrow>
   'a grant_item_scheme set \<Rightarrow> 'a grant_item_scheme set" where
  "intersection_step pdict_b perm ret =
     (case map_of pdict_b (gi_name perm) of
        None \<Rightarrow> ret
      | Some by_arg \<Rightarrow>
          if map_of by_arg (gi_argument perm) \<noteq> None then insert perm ret
          else if gi_argument perm = [] then insert perm ret
          else if map_of by_arg ''*'' \<noteq> None then insert perm ret
          else (case map_of by_arg [] of
                  Some unargumented \<Rightarrow> insert unargumented ret
                | None \<Rightarrow>
                    if gi_argument perm = ''*'' then ret \<union> set (map snd by_arg)
                    else ret))"

definition permission_intersection ::
  "'a grant_item_scheme list \<Rightarrow> 'a grant_item_scheme list \<Rightarrow> 'a grant_item_scheme set" where
  "permission_intersection perms_a perms_b =
     fold (intersection_step (permission_list_to_dict perms_b)) perms_a {}"

section \<open>Example data\<close>

text \<open>A small store on which the properties below are exercised.\<close>

definition perm_net :: permission where
  "perm_net = \<lparr>p_id = 1, p_name = ''net'', p_description = [], p_enabled = True, p_audited = False\<rparr>"

definition perm_net_ops :: permission where
  "perm_net_ops = \<lparr>p_id = 2, p_name = ''net-ops'', p_description = [], p_enabled = True, p_audited = False\<rparr>"

definition perm_ssh :: permission where
  "perm_ssh = \<lparr>p_id = 3, p_name = ''ssh'', p_description = [], p_enabled = True, p_audited = True\<rparr>"

definition perm_old :: permission where
  "perm_old = \<lparr>p_id = 4, p_name = ''old'', p_description = [], p_enabled = False, p_audited = False\<rparr>"

definition perm_admin :: permission where
  "perm_admin = \<lparr>p_id = 5, p_name = ''grouper.admin.permissions'', p_description = [],
                  p_enabled = True, p_audited = False\<rparr>"

definition perm_grant :: permission where
  "perm_grant = \<lparr>p_id = 6, p_name = ''grouper.permission.grant'', p_description = [],
                  p_enabled = True, p_audited = False\<rparr>"

definition group_team :: group where
  "group_team = \<lparr>g_id = 1, g_name = ''team'', g_enabled = True, g_email_address = None\<rparr>"

definition group_lab :: group where
  "group_lab = \<lparr>g_id = 2, g_name = ''lab'', g_enabled = True, g_email_address = Some ''lab@example.com''\<rparr>"

definition group_admins :: group where
  "group_admins = \<lparr>g_id = 3, g_name = ''admins'', g_enabled = True, g_email_address = None\<rparr>"

definition ex_env :: env where
  "ex_env =
     \<lparr>PERMISSION_GRANT = ''grouper.permission.grant'',
      PERMISSION_ADMIN = ''grouper.admin.permissions'',
      ARGUMENT_VALIDATION = (\<lambda>a. CHR '' '' \<notin> set a),
      plugin_owners = [],
      my_permissions = (\<lambda>g. if g_id g = 1 then [(3, ''ssh'', 1, ''east'', 0)] else []),
      my_members = (\<lambda>g. [(''User'', ''oliver@example.com''), (''Group'', ''sub-team'')]),
      controllers = (\<lambda>g. if g_id g = 2 then [\<lparr>u_id = 1, u_name = ''alice@example.com''\<rparr>,
                                                 \<lparr>u_id = 2, u_name = ''mallory@example.com''\<rparr>]
                          else [\<lparr>u_id = 1, u_name = ''alice@example.com''\<rparr>]),
      is_auditor = (\<lambda>u. u_id u = 1),
      groups_by_user = (\<lambda>u. if u_id u = 1 then [(group_admins, ''member'')] else []),
      status_change_obj_type = 3,
      render_subject = (\<lambda>p g. p @ '' for '' @ g),
      reference_id = (\<lambda>r. ''ref''),
      utcnow = 100\<rparr>"

definition delegation :: "string \<Rightarrow> grant_row" where
  "delegation a = \<lparr>gr_name = ''grouper.permission.grant'', gr_argument = a, gr_granted_on = 0,
                    gr_Group = group_team\<rparr>"

definition ex_tables :: tables where
  "ex_tables =
     \<lparr>permissions = [perm_net, perm_net_ops, perm_ssh, perm_old, perm_admin, perm_grant],
      groups = [group_team, group_lab, group_admins],
      permission_maps =
        [\<lparr>pm_permission_id = 5, pm_group_id = 3, pm_argument = [], pm_granted_on = 0\<rparr>,
         \<lparr>pm_permission_id = 6, pm_group_id = 2, pm_argument = ''net*/east'', pm_granted_on = 0\<rparr>,
         \<lparr>pm_permission_id = 3, pm_group_id = 1, pm_argument = ''east'', pm_granted_on = 0\<rparr>],
      requests = [],
      status_changes = [],
      comments = [],
      audit_log = [],
      counters = []\<rparr>"

definition ex_session :: session where
  "ex_session = \<lparr>view = ex_tables, durable = ex_tables, outbox = []\<rparr>"

definition alice :: user where
  "alice = \<lparr>u_id = 1, u_name = ''alice@example.com''\<rparr>"

definition mallory :: user where
  "mallory = \<lparr>u_id = 2, u_name = ''mallory@example.com''\<rparr>"

definition req_done :: permission_request where
  "req_done = \<lparr>pr_id = 1, pr_requester = alice, pr_group = group_team, pr_permission = perm_net,
                pr_argument = ''west'', pr_status = ''actioned'', pr_requested_at = 10\<rparr>"

definition req_team_ssh :: permission_request where
  "req_team_ssh = \<lparr>pr_id = 2, pr_requester = alice, pr_group = group_team,
                    pr_permission = perm_ssh, pr_argument = ''east'', pr_status = ''pending'',
                    pr_requested_at = 20\<rparr>"

definition req_lab_ssh :: permission_request where
  "req_lab_ssh = \<lparr>pr_id = 3, pr_requester = alice, pr_group = group_lab,
                   pr_permission = perm_ssh, pr_argument = ''west'', pr_status = ''pending'',
                   pr_requested_at = 30\<rparr>"

definition req_team_net :: permission_request where
  "req_team_net = \<lparr>pr_id = 4, pr_requester = alice, pr_group = group_team,
                    pr_permission = perm_net, pr_argument = ''east'', pr_status = ''pending'',
                    pr_requested_at = 40\<rparr>"

definition ex_request_tables :: tables where
  "ex_request_tables = ex_tables\<lparr>requests := [req_done, req_team_ssh, req_lab_ssh, req_team_net]\<rparr>"

definition ex_request_session :: session where
  "ex_request_session = \<lparr>view = ex_request_tables, durable = ex_request_tables, outbox = []\<rparr>"

definition req_malformed :: permission_request where
  "req_malformed = \<lparr>pr_id = 5, pr_requester = alice, pr_group = group_team,
                     pr_permission = perm_net, pr_argument = ''bad arg'', pr_status = ''pending'',
                     pr_requested_at = 50\<rparr>"

definition ex_malformed_session :: session where
  "ex_malformed_session =
     \<lparr>view = ex_tables\<lparr>requests := [req_malformed]\<rparr>,
      durable = ex_tables\<lparr>requests := [req_malformed]\<rparr>, outbox = []\<rparr>"

section \<open>Properties of the grant reducer\<close>

lemma filter_grantable_loop_Inr:
  "filter_grantable_loop env ap grants acc = Inr res \<Longrightarrow>
   res = acc @ concat (map (grantable_of_grant ap) grants)"
proof (induction grants arbitrary: acc)
  case Nil
  then show ?case by simp
next
  case (Cons g gs)
  from Cons.prems have "filter_grantable_loop env ap gs (acc @ grantable_of_grant ap g) = Inr res"
    by (simp split: if_splits)
  from Cons.IH[OF this] show ?case by simp
qed

lemma filter_grantable_loop_total:
  "(\<exists>res. filter_grantable_loop env ap grants acc = Inr res) =
   (\<forall>g\<in>set grants. gr_name g = PERMISSION_GRANT env)"
  by (induction grants arbitrary: acc) auto

lemma grantable_of_grant_subset:
  "x \<in> set (grantable_of_grant ap grant) \<Longrightarrow> fst x \<in> snd ` set ap"
  by (auto simp: grantable_of_grant_def Let_def split: if_splits intro: rev_image_eqI)

lemma filter_grantable_loop_error:
  "filter_grantable_loop env ap grants acc = Inl e \<Longrightarrow> e = AssertionError"
  by (induction grants arbitrary: acc) (auto split: if_splits)

lemma filter_grantable_permissions_Inr:
  assumes "filter_grantable_permissions env session grants all_permissions_arg = Inr res"
  shows "res = sort_key (\<lambda>x. p_name (fst x) @ snd x)
                 (concat (map (grantable_of_grant (catalog_or_default session all_permissions_arg))
                              grants))"
proof -
  from assms obtain raw
    where raw: "filter_grantable_loop env (catalog_or_default session all_permissions_arg) grants []
                = Inr raw"
      and res: "res = sort_key (\<lambda>x. p_name (fst x) @ snd x) raw"
    by (auto simp: filter_grantable_permissions_def Let_def split: sum.splits)
  from filter_grantable_loop_Inr[OF raw] res show ?thesis by simp
qed

lemma filter_grantable_permissions_total:
  assumes "\<forall>g\<in>set grants. gr_name g = PERMISSION_GRANT env"
  shows "\<exists>res. filter_grantable_permissions env session grants all_permissions_arg = Inr res"
proof -
  from assms filter_grantable_loop_total
    [of env "catalog_or_default session all_permissions_arg" grants "[]"]
  obtain raw where
    "filter_grantable_loop env (catalog_or_default session all_permissions_arg) grants [] = Inr raw"
    by blast
  then show ?thesis by (simp add: filter_grantable_permissions_def)
qed

text \<open>
  C2, as the code has it. Given delegations that are all named \<open>PERMISSION_GRANT\<close>, the
  reducer returns a list that holds one entry for every pair of a delegation and a catalog
  permission matching its glob, with the delegation's argument-pattern: a pair that several
  delegations produce appears once for each of them, nothing is removed. A delegation of
  another name fails the assertion of the loop.
\<close>

theorem filter_grantable_permissions_entries:
  "((\<forall>g\<in>set grants. gr_name g = PERMISSION_GRANT env) \<longrightarrow>
     (\<exists>res. filter_grantable_permissions env session grants all_permissions_arg = Inr res
        \<and> mset res = mset (concat (map (grantable_of_grant
                                          (catalog_or_default session all_permissions_arg)) grants))))
   \<and> (\<not> (\<forall>g\<in>set grants. gr_name g = PERMISSION_GRANT env) \<longrightarrow>
        filter_grantable_permissions env session grants all_permissions_arg = Inl AssertionError)"
proof (intro conjI impI)
  let ?ap = "catalog_or_default session all_permissions_arg"
  assume "\<forall>g\<in>set grants. gr_name g = PERMISSION_GRANT env"
  from filter_grantable_permissions_total[OF this]
  obtain res where r: "filter_grantable_permissions env session grants all_permissions_arg = Inr res"
    by blast
  from filter_grantable_permissions_Inr[OF r]
  have "mset res = mset (concat (map (grantable_of_grant ?ap) grants))" by simp
  with r show "\<exists>res. filter_grantable_permissions env session grants all_permissions_arg = Inr res
        \<and> mset res = mset (concat (map (grantable_of_grant ?ap) grants))"
    by blast
next
  let ?ap = "catalog_or_default session all_permissions_arg"
  assume n: "\<not> (\<forall>g\<in>set grants. gr_name g = PERMISSION_GRANT env)"
  with filter_grantable_loop_total[of env ?ap grants "[]"]
  have "\<not> (\<exists>res. filter_grantable_loop env ?ap grants [] = Inr res)" by simp
  then obtain e where e: "filter_grantable_loop env ?ap grants [] = Inl e"
    by (cases "filter_grantable_loop env ?ap grants []") auto
  with filter_grantable_loop_error[OF e]
  show "filter_grantable_permissions env session grants all_permissions_arg = Inl AssertionError"
    by (simp add: filter_grantable_permissions_def)
qed

theorem filter_grantable_permissions_entries_witness:
  "gr_name (delegation ''net*/prod'') = PERMISSION_GRANT ex_env
   \<and> (\<exists>res. filter_grantable_permissions ex_env ex_session
               [delegation ''net*/prod'', delegation ''net/prod'', delegation ''ssh'']
               (Some [(''net'', perm_net), (''net-ops'', perm_net_ops), (''ssh'', perm_ssh)])
             = Inr res
         \<and> mset res = {#(perm_net, ''prod''), (perm_net_ops, ''prod''), (perm_net, ''prod''),
                         (perm_ssh, ''*'')#}
         \<and> length res = 4)
   \<and> filter_grantable_permissions ex_env ex_session
        [delegation ''net'', \<lparr>gr_name = ''ssh'', gr_argument = ''net'', gr_granted_on = 0,
                               gr_Group = group_team\<rparr>]
        (Some [(''net'', perm_net)])
      = Inl AssertionError"
proof -
  let ?ds = "[delegation ''net*/prod'', delegation ''net/prod'', delegation ''ssh'']"
  let ?cat = "[(''net'', perm_net), (''net-ops'', perm_net_ops), (''ssh'', perm_ssh)]"
  have h0: "gr_name (delegation ''net*/prod'') = PERMISSION_GRANT ex_env"
    by (simp add: delegation_def ex_env_def)
  have h1: "\<forall>g\<in>set ?ds. gr_name g = PERMISSION_GRANT ex_env"
    by (simp add: delegation_def ex_env_def)
  have c: "catalog_or_default ex_session (Some ?cat) = ?cat"
    by (simp add: catalog_or_default_def)
  have g: "concat (map (grantable_of_grant ?cat) ?ds)
           = [(perm_net, ''prod''), (perm_net_ops, ''prod''), (perm_net, ''prod''), (perm_ssh, ''*'')]"
    by (simp add: grantable_of_grant_def split_once_def delegation_def)
  from filter_grantable_permissions_entries
         [where grants = ?ds and env = ex_env and session = ex_session
            and all_permissions_arg = "Some ?cat", THEN conjunct1, THEN mp, OF h1]
  obtain res where r: "filter_grantable_permissions ex_env ex_session ?ds (Some ?cat) = Inr res"
    and m: "mset res = mset (concat (map (grantable_of_grant
                                          (catalog_or_default ex_session (Some ?cat))) ?ds))"
    by blast
  have m': "mset res = {#(perm_net, ''prod''), (perm_net_ops, ''prod''), (perm_net, ''prod''),
                         (perm_ssh, ''*'')#}"
    using m unfolding c g by simp
  have "size (mset res) = 4" unfolding m' by simp
  then have l: "length res = 4" by simp
  have first: "\<exists>res. filter_grantable_permissions ex_env ex_session ?ds (Some ?cat) = Inr res
         \<and> mset res = {#(perm_net, ''prod''), (perm_net_ops, ''prod''), (perm_net, ''prod''),
                         (perm_ssh, ''*'')#}
         \<and> length res = 4"
    by (rule exI[of _ res]) (intro conjI r m' l)
  have h2: "\<not> (\<forall>g\<in>set [delegation ''net'', \<lparr>gr_name = ''ssh'', gr_argument = ''net'',
                      gr_granted_on = 0, gr_Group = group_team\<rparr>].
                gr_name g = PERMISSION_GRANT ex_env)"
    by (simp add: delegation_def ex_env_def)
  from filter_grantable_permissions_entries
         [where grants = "[delegation ''net'', \<lparr>gr_name = ''ssh'', gr_argument = ''net'',
                      gr_granted_on = 0, gr_Group = group_team\<rparr>]"
            and env = ex_env and session = ex_session
            and all_permissions_arg = "Some [(''net'', perm_net)]", THEN conjunct2, THEN mp, OF h2]
  have second: "filter_grantable_permissions ex_env ex_session
        [delegation ''net'', \<lparr>gr_name = ''ssh'', gr_argument = ''net'', gr_granted_on = 0,
                               gr_Group = group_team\<rparr>]
        (Some [(''net'', perm_net)])
      = Inl AssertionError" .
  from h0 first second show ?thesis by (intro conjI)
qed

text \<open>
  The claim fails as stated: two delegations of the same permission give the pair twice.
\<close>

theorem filter_grantable_permissions_duplicate_counterexample:
  "filter_grantable_permissions ex_env ex_session [delegation ''net'', delegation ''net/*'']
     (Some [(''net'', perm_net), (''net-ops'', perm_net_ops)])
     = Inr [(perm_net, ''*''), (perm_net, ''*'')]
   \<and> \<not> distinct [(perm_net, ''*''), (perm_net, ''*'')]"
  by (simp add: filter_grantable_permissions_def catalog_or_default_def grantable_of_grant_def
      split_once_def delegation_def ex_env_def perm_net_def perm_net_ops_def)

text \<open>
  The list is sorted on the key \<open>x[0].name + x[1]\<close>, where the docstring has it sorted by
  permission name and argument. With the names \<open>net\<close> and \<open>net-ops\<close> the entry of
  \<open>net-ops\<close> comes out before the entry of \<open>net\<close>.
\<close>

lemma filter_grantable_permissions_prefix_names:
  "filter_grantable_permissions ex_env ex_session [delegation ''net/z'', delegation ''net-ops/a'']
       (Some [(''net'', perm_net), (''net-ops'', perm_net_ops)])
       = Inr [(perm_net_ops, ''a''), (perm_net, ''z'')]"
  by (simp add: filter_grantable_permissions_def catalog_or_default_def grantable_of_grant_def
      split_once_def delegation_def ex_env_def perm_net_def perm_net_ops_def)

section \<open>Properties of the ownership resolver\<close>

lemma set_update_subset: "set (AList.update k v al) \<subseteq> insert (k, v) (set al)"
  by (induction al) auto

lemma permissions_by_name_fold_set:
  "set (fold (\<lambda>permission d. AList.update (p_name permission) permission d) ps acc)
   \<subseteq> set acc \<union> (\<lambda>p. (p_name p, p)) ` set ps"
proof (induction ps arbitrary: acc)
  case Nil
  then show ?case by simp
next
  case (Cons p ps)
  have "set (AList.update (p_name p) p acc) \<subseteq> insert (p_name p, p) (set acc)"
    by (rule set_update_subset)
  with Cons.IH[of "AList.update (p_name p) p acc"] show ?case by auto
qed

lemma permissions_by_name_fold_keys:
  "fst ` set (fold (\<lambda>permission d. AList.update (p_name permission) permission d) ps acc)
   = fst ` set acc \<union> p_name ` set ps"
  by (induction ps arbitrary: acc) (auto simp: dom_update)

lemma permissions_by_name_entries:
  "(k, p) \<in> set (permissions_by_name ps) \<Longrightarrow> p \<in> set ps \<and> k = p_name p"
  using permissions_by_name_fold_set[of ps "[]"] by (auto simp: permissions_by_name_def)

lemma permissions_by_name_keys: "fst ` set (permissions_by_name ps) = p_name ` set ps"
  using permissions_by_name_fold_keys[of ps "[]"] by (simp add: permissions_by_name_def)

lemma set_get_all_permissions:
  "set (get_all_permissions session False) = {p \<in> set (permissions (view session)). p_enabled p}"
  by (auto simp: get_all_permissions_def)

lemma dd_get_Nil: "dd_get [] k = []"
  by (simp add: dd_get_def)

lemma dd_get_dd_append:
  "dd_get (dd_append k v d) k' = (if k' = k then dd_get d k @ [v] else dd_get d k')"
  by (simp add: dd_append_def dd_get_def update_conv')

lemma dd_get_fold_dd_append:
  "dd_get (fold (\<lambda>x d. dd_append (key x) x d) xs acc) k
   = dd_get acc k @ filter (\<lambda>x. key x = k) xs"
  by (induction xs arbitrary: acc) (auto simp: dd_get_dd_append)

lemma owners_extend_keys: "fst ` set (owners_extend k a os m) = insert k (fst ` set m)"
  by (simp add: owners_extend_def dom_update)

lemma owners_at_owners_extend:
  "owners_at (owners_extend k a os m) k' a'
   = (if k' = k \<and> a' = a then owners_at m k a @ os else owners_at m k' a')"
  by (simp add: owners_extend_def owners_at_def dd_get_def update_conv')


lemma fold_owners_extend_keys:
  "fst ` set (fold (\<lambda>x. owners_extend (kf x) (af x) (gf x)) xs m) = fst ` set m \<union> kf ` set xs"
  by (induction xs arbitrary: m) (auto simp: owners_extend_keys)

lemma fold_owners_extend_mono:
  "set (owners_at m k a) \<subseteq> set (owners_at (fold (\<lambda>x. owners_extend (kf x) (af x) (gf x)) xs m) k a)"
proof (induction xs arbitrary: m)
  case Nil
  then show ?case by simp
next
  case (Cons x xs)
  have "set (owners_at m k a) \<subseteq> set (owners_at (owners_extend (kf x) (af x) (gf x) m) k a)"
    by (auto simp: owners_at_owners_extend)
  with Cons.IH[of "owners_extend (kf x) (af x) (gf x) m"] show ?case by auto
qed

lemma fold_owners_extend_member:
  assumes "x \<in> set xs" "g \<in> set (gf x)"
  shows "g \<in> set (owners_at (fold (\<lambda>x. owners_extend (kf x) (af x) (gf x)) xs m) (kf x) (af x))"
  using assms(1)
proof (induction xs arbitrary: m)
  case Nil
  then show ?case by simp
next
  case (Cons y ys)
  show ?case
  proof (cases "x = y")
    case True
    have "g \<in> set (owners_at (owners_extend (kf y) (af y) (gf y) m) (kf x) (af x))"
      using True assms(2) by (simp add: owners_at_owners_extend)
    with fold_owners_extend_mono[of "owners_extend (kf y) (af y) (gf y) m" "kf x" "af x" kf af gf ys]
    show ?thesis by auto
  next
    case False
    with Cons.prems have "x \<in> set ys" by simp
    from Cons.IH[OF this] show ?thesis by simp
  qed
qed

lemma owners_of_groups_props:
  assumes ap: "\<forall>(k, p)\<in>set ap. k = p_name p"
  shows "\<exists>m'. owners_of_groups env session ap gbg sg gs m = Inr m'
       \<and> fst ` set m' \<subseteq> fst ` set m \<union> Perm ` fst ` set ap \<union> (if sg then {GLOBAL_OWNERS} else {})
       \<and> (\<forall>k a. set (owners_at m k a) \<subseteq> set (owners_at m' k a))
       \<and> (\<forall>g\<in>set gs. py_any (map (\<lambda>r. gr_name r = PERMISSION_ADMIN env) (dd_get gbg (g_id g)))
             \<longrightarrow> (\<forall>n\<in>fst ` set ap. g \<in> set (owners_at m' (Perm n) ''*'')))"
proof (induction gs arbitrary: m)
  case Nil
  then show ?case by auto
next
  case (Cons g gs)
  let ?gp = "dd_get gbg (g_id g)"
  show ?case
  proof (cases "py_any (map (\<lambda>r. gr_name r = PERMISSION_ADMIN env) ?gp)")
    case True
    define m1 where "m1 = fold (\<lambda>perm_name. owners_extend (Perm perm_name) ''*'' [g]) (map fst ap) m"
    define m2 where "m2 = (if sg then owners_extend GLOBAL_OWNERS ''*'' [g] m1 else m1)"
    have step: "owners_of_groups env session ap gbg sg (g # gs) m
                = owners_of_groups env session ap gbg sg gs m2"
      using True by (simp add: m1_def m2_def Let_def)
    have k1: "fst ` set m1 = fst ` set m \<union> Perm ` fst ` set ap"
      unfolding m1_def using fold_owners_extend_keys[of Perm "\<lambda>_. ''*''" "\<lambda>_. [g]" "map fst ap" m]
      by (simp add: image_image)
    have k2: "fst ` set m2 \<subseteq> fst ` set m \<union> Perm ` fst ` set ap \<union> (if sg then {GLOBAL_OWNERS} else {})"
      using k1 by (auto simp: m2_def owners_extend_keys)
    have mono1: "set (owners_at m k a) \<subseteq> set (owners_at m1 k a)" for k a
      unfolding m1_def by (rule fold_owners_extend_mono)
    have mono2: "set (owners_at m k a) \<subseteq> set (owners_at m2 k a)" for k a
      using mono1[of k a] by (auto simp: m2_def owners_at_owners_extend)
    have adm1: "g \<in> set (owners_at m1 (Perm n) ''*'')" if "n \<in> fst ` set ap" for n
      unfolding m1_def
      using fold_owners_extend_member[of n "map fst ap" g "\<lambda>_. [g]" Perm "\<lambda>_. ''*''" m] that
      by simp
    have adm2: "g \<in> set (owners_at m2 (Perm n) ''*'')" if "n \<in> fst ` set ap" for n
      using adm1[OF that] by (auto simp: m2_def owners_at_owners_extend)
    from Cons.IH[of m2] obtain m' where m':
      "owners_of_groups env session ap gbg sg gs m2 = Inr m'"
      "fst ` set m' \<subseteq> fst ` set m2 \<union> Perm ` fst ` set ap \<union> (if sg then {GLOBAL_OWNERS} else {})"
      "\<forall>k a. set (owners_at m2 k a) \<subseteq> set (owners_at m' k a)"
      "\<forall>g\<in>set gs. py_any (map (\<lambda>r. gr_name r = PERMISSION_ADMIN env) (dd_get gbg (g_id g)))
             \<longrightarrow> (\<forall>n\<in>fst ` set ap. g \<in> set (owners_at m' (Perm n) ''*''))"
      by blast
    have "fst ` set m' \<subseteq> fst ` set m \<union> Perm ` fst ` set ap \<union> (if sg then {GLOBAL_OWNERS} else {})"
      using m'(2) k2 by blast
    moreover have "\<forall>k a. set (owners_at m k a) \<subseteq> set (owners_at m' k a)"
      using m'(3) mono2 by blast
    moreover have "\<forall>n\<in>fst ` set ap. g \<in> set (owners_at m' (Perm n) ''*'')"
      using adm2 m'(3) by blast
    ultimately show ?thesis using step m'(1) m'(4) by auto
  next
    case False
    let ?grants = "filter (\<lambda>gp. gr_name gp = PERMISSION_GRANT env) ?gp"
    have "\<forall>x\<in>set ?grants. gr_name x = PERMISSION_GRANT env" by simp
    from filter_grantable_permissions_total[OF this, of session "Some ap"]
    obtain res where res: "filter_grantable_permissions env session ?grants (Some ap) = Inr res"
      by blast
    define m2 where "m2 = fold (\<lambda>(perm, arg). owners_extend (Perm (p_name perm)) arg [g]) res m"
    have step: "owners_of_groups env session ap gbg sg (g # gs) m
                = owners_of_groups env session ap gbg sg gs m2"
      using False res by (simp add: m2_def Let_def)
    have m2': "m2 = fold (\<lambda>x. owners_extend (Perm (p_name (fst x))) (snd x) [g]) res m"
      by (simp add: m2_def case_prod_unfold)
    have sub: "\<forall>x\<in>set res. fst x \<in> snd ` set ap"
      using filter_grantable_permissions_Inr[OF res] grantable_of_grant_subset[of _ ap]
      by (auto simp: catalog_or_default_def)
    have "p_name (fst x) \<in> fst ` set ap" if "x \<in> set res" for x
    proof -
      from sub that obtain k where "(k, fst x) \<in> set ap" by force
      with ap have "k = p_name (fst x)" by auto
      with \<open>(k, fst x) \<in> set ap\<close> show ?thesis by force
    qed
    then have k2: "fst ` set m2 \<subseteq> fst ` set m \<union> Perm ` fst ` set ap"
      unfolding m2' fold_owners_extend_keys by auto
    have mono2: "set (owners_at m k a) \<subseteq> set (owners_at m2 k a)" for k a
      unfolding m2' by (rule fold_owners_extend_mono)
    from Cons.IH[of m2] obtain m' where m':
      "owners_of_groups env session ap gbg sg gs m2 = Inr m'"
      "fst ` set m' \<subseteq> fst ` set m2 \<union> Perm ` fst ` set ap \<union> (if sg then {GLOBAL_OWNERS} else {})"
      "\<forall>k a. set (owners_at m2 k a) \<subseteq> set (owners_at m' k a)"
      "\<forall>g\<in>set gs. py_any (map (\<lambda>r. gr_name r = PERMISSION_ADMIN env) (dd_get gbg (g_id g)))
             \<longrightarrow> (\<forall>n\<in>fst ` set ap. g \<in> set (owners_at m' (Perm n) ''*''))"
      by blast
    have "fst ` set m' \<subseteq> fst ` set m \<union> Perm ` fst ` set ap \<union> (if sg then {GLOBAL_OWNERS} else {})"
      using m'(2) k2 by blast
    moreover have "\<forall>k a. set (owners_at m k a) \<subseteq> set (owners_at m' k a)"
      using m'(3) mono2 by blast
    ultimately show ?thesis using step m'(1) m'(4) False by auto
  qed
qed


lemma merge_plugin_owners_Nil: "merge_plugin_owners [] m = m"
  by (simp add: merge_plugin_owners_def)

lemma admin_row_found:
  assumes "g \<in> set (groups t)" "pm \<in> set (permission_maps t)" "pm_group_id pm = g_id g"
    "p \<in> set (permissions t)" "p_id p = pm_permission_id pm" "p_name p = admin"
  shows "py_any (map (\<lambda>r. gr_name r = admin)
           (dd_get (fold (\<lambda>grant d. dd_append (g_id (gr_Group grant)) grant d)
                         (all_group_permissions t) []) (g_id g)))"
proof -
  let ?row = "\<lparr>gr_name = p_name p, gr_argument = pm_argument pm,
               gr_granted_on = pm_granted_on pm, gr_Group = g\<rparr>"
  have "?row \<in> set (all_group_permissions t)"
    using assms by (auto simp: all_group_permissions_def)
  then have "?row \<in> set (filter (\<lambda>x. g_id (gr_Group x) = g_id g) (all_group_permissions t))"
    by simp
  moreover have "dd_get (fold (\<lambda>grant d. dd_append (g_id (gr_Group grant)) grant d)
                         (all_group_permissions t) []) (g_id g)
        = filter (\<lambda>x. g_id (gr_Group x) = g_id g) (all_group_permissions t)"
    using dd_get_fold_dd_append[of "\<lambda>x. g_id (gr_Group x)" "all_group_permissions t" "[]" "g_id g"]
    by (simp add: dd_get_Nil)
  ultimately show ?thesis
    using assms(6) unfolding py_any_def list_ex_iff by (intro bexI[of _ True]) force+
qed

text \<open>
  C8. With no plugin contributions the resolver returns an owner map in which every enabled
  group that holds a grant of \<open>PERMISSION_ADMIN\<close> is an owner under \<open>*\<close> of every enabled
  permission. Every key of the map other than \<open>GLOBAL_OWNERS\<close> is the name of an enabled
  permission; so, permission names being unique, no disabled permission is a key.
\<close>

theorem get_owners_by_grantable_permission_admin:
  "plugin_owners env = [] \<longrightarrow>
   (\<exists>m. get_owners_by_grantable_permission env session separate_global = Inr m
      \<and> (\<forall>g\<in>set (groups (view session)).
            g_enabled g
            \<and> (\<exists>pm\<in>set (permission_maps (view session)). pm_group_id pm = g_id g
                 \<and> (\<exists>p\<in>set (permissions (view session)).
                        p_id p = pm_permission_id pm \<and> p_name p = PERMISSION_ADMIN env))
            \<longrightarrow> (\<forall>p\<in>set (permissions (view session)).
                    p_enabled p \<longrightarrow> g \<in> set (owners_at m (Perm (p_name p)) ''*'')))
      \<and> (\<forall>k\<in>fst ` set m.
            k = GLOBAL_OWNERS
            \<or> (\<exists>p\<in>set (permissions (view session)). p_enabled p \<and> k = Perm (p_name p)))
      \<and> (distinct (map p_name (permissions (view session)))
          \<longrightarrow> (\<forall>p\<in>set (permissions (view session)).
                  \<not> p_enabled p \<longrightarrow> Perm (p_name p) \<notin> fst ` set m)))"
proof
  assume np: "plugin_owners env = []"
  let ?t = "view session"
  let ?ap = "permissions_by_name (get_all_permissions session False)"
  let ?gbg = "fold (\<lambda>grant d. dd_append (g_id (gr_Group grant)) grant d) (all_group_permissions ?t) []"
  let ?gs = "filter g_enabled (groups ?t)"
  have ap: "\<forall>(k, p)\<in>set ?ap. k = p_name p"
    using permissions_by_name_entries by blast
  have keys: "fst ` set ?ap = p_name ` {p \<in> set (permissions ?t). p_enabled p}"
    by (simp add: permissions_by_name_keys set_get_all_permissions)
  from owners_of_groups_props[OF ap, of env session ?gbg separate_global ?gs "[]"]
  obtain m where m: "owners_of_groups env session ?ap ?gbg separate_global ?gs [] = Inr m"
    and mk: "fst ` set m \<subseteq> Perm ` fst ` set ?ap \<union> (if separate_global then {GLOBAL_OWNERS} else {})"
    and ma: "\<forall>g\<in>set ?gs. py_any (map (\<lambda>r. gr_name r = PERMISSION_ADMIN env) (dd_get ?gbg (g_id g)))
             \<longrightarrow> (\<forall>n\<in>fst ` set ?ap. g \<in> set (owners_at m (Perm n) ''*''))"
    by auto
  have res: "get_owners_by_grantable_permission env session separate_global = Inr m"
    using m np by (simp add: get_owners_by_grantable_permission_def Let_def merge_plugin_owners_Nil)
  have admin: "g \<in> set (owners_at m (Perm (p_name p)) ''*'')"
    if "g \<in> set (groups ?t)" "g_enabled g" "pm \<in> set (permission_maps ?t)" "pm_group_id pm = g_id g"
      "q \<in> set (permissions ?t)" "p_id q = pm_permission_id pm" "p_name q = PERMISSION_ADMIN env"
      "p \<in> set (permissions ?t)" "p_enabled p" for g pm q p
  proof -
    have "py_any (map (\<lambda>r. gr_name r = PERMISSION_ADMIN env) (dd_get ?gbg (g_id g)))"
      by (rule admin_row_found[OF that(1) that(3) that(4) that(5) that(6) that(7)])
    moreover have "g \<in> set ?gs" using that(1,2) by simp
    moreover have "p_name p \<in> fst ` set ?ap" using that(8,9) by (auto simp: keys)
    ultimately show ?thesis using ma by blast
  qed
  have keys_enabled: "k = GLOBAL_OWNERS \<or> (\<exists>p\<in>set (permissions ?t). p_enabled p \<and> k = Perm (p_name p))"
    if "k \<in> fst ` set m" for k
    using that mk keys by (auto split: if_splits)
  have disabled: "Perm (p_name p) \<notin> fst ` set m"
    if d: "distinct (map p_name (permissions ?t))" and p: "p \<in> set (permissions ?t)" "\<not> p_enabled p"
    for p
  proof
    assume "Perm (p_name p) \<in> fst ` set m"
    from keys_enabled[OF this] obtain q where q: "q \<in> set (permissions ?t)" "p_enabled q"
      "p_name q = p_name p" by auto
    from d q(1) p(1) q(3) have "q = p" by (auto simp: distinct_map dest: inj_onD)
    with q(2) p(2) show False by simp
  qed
  show "\<exists>m. get_owners_by_grantable_permission env session separate_global = Inr m
      \<and> (\<forall>g\<in>set (groups ?t).
            g_enabled g
            \<and> (\<exists>pm\<in>set (permission_maps ?t). pm_group_id pm = g_id g
                 \<and> (\<exists>p\<in>set (permissions ?t).
                        p_id p = pm_permission_id pm \<and> p_name p = PERMISSION_ADMIN env))
            \<longrightarrow> (\<forall>p\<in>set (permissions ?t).
                    p_enabled p \<longrightarrow> g \<in> set (owners_at m (Perm (p_name p)) ''*'')))
      \<and> (\<forall>k\<in>fst ` set m.
            k = GLOBAL_OWNERS
            \<or> (\<exists>p\<in>set (permissions ?t). p_enabled p \<and> k = Perm (p_name p)))
      \<and> (distinct (map p_name (permissions ?t))
          \<longrightarrow> (\<forall>p\<in>set (permissions ?t).
                  \<not> p_enabled p \<longrightarrow> Perm (p_name p) \<notin> fst ` set m))"
    using res admin keys_enabled disabled by (intro exI[of _ m]) blast
qed

theorem get_owners_by_grantable_permission_admin_witness:
  "plugin_owners ex_env = []
   \<and> distinct (map p_name (permissions (view ex_session)))
   \<and> (\<exists>m. get_owners_by_grantable_permission ex_env ex_session False = Inr m
        \<and> group_admins \<in> set (owners_at m (Perm ''ssh'') ''*'')
        \<and> Perm ''old'' \<notin> fst ` set m)"
proof -
  have h1: "plugin_owners ex_env = []" by (simp add: ex_env_def)
  have h2: "distinct (map p_name (permissions (view ex_session)))"
    by (simp add: ex_session_def ex_tables_def perm_net_def perm_net_ops_def perm_ssh_def
        perm_old_def perm_admin_def perm_grant_def)
  have g: "group_admins \<in> set (groups (view ex_session))" "g_enabled group_admins"
    by (simp_all add: ex_session_def ex_tables_def group_admins_def)
  have adm: "\<exists>pm\<in>set (permission_maps (view ex_session)). pm_group_id pm = g_id group_admins
                 \<and> (\<exists>p\<in>set (permissions (view ex_session)).
                        p_id p = pm_permission_id pm \<and> p_name p = PERMISSION_ADMIN ex_env)"
    by (simp add: ex_session_def ex_tables_def group_admins_def ex_env_def perm_admin_def)
  have ssh: "perm_ssh \<in> set (permissions (view ex_session))" "p_enabled perm_ssh"
    "p_name perm_ssh = ''ssh''"
    by (simp_all add: ex_session_def ex_tables_def perm_ssh_def)
  have old: "perm_old \<in> set (permissions (view ex_session))" "\<not> p_enabled perm_old"
    "p_name perm_old = ''old''"
    by (simp_all add: ex_session_def ex_tables_def perm_old_def)
  from get_owners_by_grantable_permission_admin [of ex_env ex_session False] h1
  obtain m where m: "get_owners_by_grantable_permission ex_env ex_session False = Inr m"
    and a: "\<forall>g\<in>set (groups (view ex_session)).
            g_enabled g
            \<and> (\<exists>pm\<in>set (permission_maps (view ex_session)). pm_group_id pm = g_id g
                 \<and> (\<exists>p\<in>set (permissions (view ex_session)).
                        p_id p = pm_permission_id pm \<and> p_name p = PERMISSION_ADMIN ex_env))
            \<longrightarrow> (\<forall>p\<in>set (permissions (view ex_session)).
                    p_enabled p \<longrightarrow> g \<in> set (owners_at m (Perm (p_name p)) ''*''))"
    and d: "distinct (map p_name (permissions (view ex_session)))
          \<longrightarrow> (\<forall>p\<in>set (permissions (view ex_session)).
                  \<not> p_enabled p \<longrightarrow> Perm (p_name p) \<notin> fst ` set m)"
    by blast
  from a g adm ssh have "group_admins \<in> set (owners_at m (Perm ''ssh'') ''*'')" by metis
  moreover from d h2 old have "Perm ''old'' \<notin> fst ` set m" by metis
  ultimately show ?thesis using h1 h2 m by blast
qed

section \<open>Properties of the argument-set reducer\<close>

text \<open>
  C3, as the code has it. For a permission in the restricted list with at least one
  non-wildcard argument, the reducer returns exactly the sorted, duplicate-free non-wildcard
  arguments; when every argument is non-wildcard it returns the sorted, duplicate-free
  arguments; in every other case, that is when a wildcard is present and the first case
  does not apply, it returns the wildcard alone. So the owned patterns \<open>*\<close> and \<open>east\<close>
  reduce to \<open>east\<close> for a restricted permission and to \<open>*\<close> for any other.
\<close>

theorem reduce_args_cases:
  "(perm_name \<in> set restricted \<and> (\<exists>a\<in>set args. a \<noteq> ''*'') \<longrightarrow>
      sorted (reduce_args restricted perm_name args)
      \<and> distinct (reduce_args restricted perm_name args)
      \<and> set (reduce_args restricted perm_name args) = set args - {''*''})
   \<and> ((\<forall>a\<in>set args. a \<noteq> ''*'') \<longrightarrow>
      sorted (reduce_args restricted perm_name args)
      \<and> distinct (reduce_args restricted perm_name args)
      \<and> set (reduce_args restricted perm_name args) = set args)
   \<and> (''*'' \<in> set args \<and> \<not> (perm_name \<in> set restricted \<and> (\<exists>a\<in>set args. a \<noteq> ''*'')) \<longrightarrow>
      reduce_args restricted perm_name args = [''*''])
   \<and> reduce_args [perm_name] perm_name [''*'', ''east''] = [''east'']
   \<and> reduce_args [] perm_name [''*'', ''east''] = [''*'']"
proof -
  have any_iff: "py_any (map (\<lambda>a. a \<noteq> ''*'') args) = (\<exists>a\<in>set args. a \<noteq> ''*'')"
    by (simp add: py_any_def list_ex_iff)
  have all_iff: "py_all (map (\<lambda>a. a \<noteq> ''*'') args) = (\<forall>a\<in>set args. a \<noteq> ''*'')"
    by (simp add: py_all_def list_all_iff)
  have c1: "perm_name \<in> set restricted \<and> (\<exists>a\<in>set args. a \<noteq> ''*'') \<longrightarrow>
      sorted (reduce_args restricted perm_name args)
      \<and> distinct (reduce_args restricted perm_name args)
      \<and> set (reduce_args restricted perm_name args) = set args - {''*''}"
    unfolding reduce_args_def Let_def any_iff all_iff by auto
  have c2: "(\<forall>a\<in>set args. a \<noteq> ''*'') \<longrightarrow>
      sorted (reduce_args restricted perm_name args)
      \<and> distinct (reduce_args restricted perm_name args)
      \<and> set (reduce_args restricted perm_name args) = set args"
    unfolding reduce_args_def Let_def any_iff all_iff by auto
  have c3: "''*'' \<in> set args \<and> \<not> (perm_name \<in> set restricted \<and> (\<exists>a\<in>set args. a \<noteq> ''*'')) \<longrightarrow>
      reduce_args restricted perm_name args = [''*'']"
    unfolding reduce_args_def Let_def any_iff all_iff by auto
  have c4: "reduce_args [perm_name] perm_name [''*'', ''east''] = [''east'']"
    by (simp add: reduce_args_def py_any_def)
  have c5: "reduce_args [] perm_name [''*'', ''east''] = [''*'']"
    by (simp add: reduce_args_def py_all_def)
  from c1 c2 c3 c4 c5 show ?thesis by blast
qed

theorem reduce_args_cases_witness:
  "set (reduce_args [''net''] ''net'' [''*'', ''west'', ''east'', ''west'']) = {''east'', ''west''}
   \<and> sorted (reduce_args [''net''] ''net'' [''*'', ''west'', ''east'', ''west''])
   \<and> set (reduce_args [''net''] ''db'' [''west'', ''east'']) = {''east'', ''west''}
   \<and> distinct (reduce_args [''net''] ''db'' [''west'', ''east''])
   \<and> reduce_args [''net''] ''db'' [''*'', ''east''] = [''*'']"
  using reduce_args_cases [of "''net''" "[''net'']" "[''*'', ''west'', ''east'', ''west'']"]
        reduce_args_cases [of "''db''" "[''net'']" "[''west'', ''east'']"]
        reduce_args_cases [of "''db''" "[''net'']" "[''*'', ''east'']"]
  by auto

text \<open>
  The example of the claim for a permission that is not restricted: the result is the
  wildcard alone, not the two patterns.
\<close>

theorem reduce_args_unrestricted_counterexample:
  "reduce_args [''net''] ''db'' [''*'', ''east''] \<noteq> [''*'', ''east'']"
  by (simp add: reduce_args_def py_any_def py_all_def)

section \<open>Properties of the permission intersection\<close>

lemma dd_get_update: "dd_get (AList.update k v d) n = (if n = k then v else dd_get d n)"
  by (simp add: dd_get_def update_conv')

lemma pdict_step_lookup:
  "map_of (dd_get (permission_list_to_dict_step p ret) n) a =
     (if n = gi_name p \<and> a = gi_argument p then Some p else map_of (dd_get ret n) a)"
  by (simp add: permission_list_to_dict_step_def dd_get_update update_conv')

lemma pdict_step_keys: "(map_of (permission_list_to_dict_step p ret) n = None) = (n \<noteq> gi_name p \<and> map_of ret n = None)"
  by (simp add: permission_list_to_dict_step_def update_conv')

lemma pdict_fold_Some:
  "map_of (dd_get (fold permission_list_to_dict_step perms acc) n) a = Some b \<Longrightarrow>
   (b \<in> set perms \<and> gi_name b = n \<and> gi_argument b = a) \<or> map_of (dd_get acc n) a = Some b"
  by (induction perms arbitrary: acc) (fastforce simp: pdict_step_lookup split: if_splits)+

lemma pdict_fold_None:
  "(map_of (dd_get (fold permission_list_to_dict_step perms acc) n) a = None) =
   ((\<forall>p\<in>set perms. \<not> (gi_name p = n \<and> gi_argument p = a)) \<and> map_of (dd_get acc n) a = None)"
  by (induction perms arbitrary: acc) (auto simp: pdict_step_lookup)

lemma pdict_fold_keys:
  "(map_of (fold permission_list_to_dict_step perms acc) n = None) = (n \<notin> gi_name ` set perms \<and> map_of acc n = None)"
  by (induction perms arbitrary: acc) (auto simp: pdict_step_keys)

lemma pdict_lookup_Some:
  "map_of (dd_get (permission_list_to_dict perms) n) a = Some b \<Longrightarrow>
   b \<in> set perms \<and> gi_name b = n \<and> gi_argument b = a"
  using pdict_fold_Some[of perms "[]" n a b]
  by (simp add: permission_list_to_dict_def permission_list_to_dict_step_def dd_get_def)

lemma pdict_lookup_None:
  "(map_of (dd_get (permission_list_to_dict perms) n) a = None) =
   (\<forall>p\<in>set perms. \<not> (gi_name p = n \<and> gi_argument p = a))"
  using pdict_fold_None[of perms "[]" n a]
  by (simp add: permission_list_to_dict_def permission_list_to_dict_step_def dd_get_def)

lemma pdict_keys:
  "(map_of (permission_list_to_dict perms) n = None) = (n \<notin> gi_name ` set perms)"
  using pdict_fold_keys[of perms "[]" n]
  by (simp add: permission_list_to_dict_def permission_list_to_dict_step_def)


lemma pdict_step_distinct:
  assumes "\<forall>n d. map_of ret n = Some d \<longrightarrow> distinct (map fst d)"
  shows "\<forall>n d. map_of (permission_list_to_dict_step p ret) n = Some d \<longrightarrow> distinct (map fst d)"
  using assms
  by (auto simp: permission_list_to_dict_step_def update_conv' dd_get_def distinct_update split: if_splits option.splits)

lemma pdict_fold_distinct:
  "\<forall>n d. map_of acc n = Some d \<longrightarrow> distinct (map fst d) \<Longrightarrow>
   \<forall>n d. map_of (fold permission_list_to_dict_step perms acc) n = Some d \<longrightarrow> distinct (map fst d)"
proof (induction perms arbitrary: acc)
  case Nil
  then show ?case by simp
next
  case (Cons p ps)
  have "\<forall>n d. map_of (permission_list_to_dict_step p acc) n = Some d \<longrightarrow> distinct (map fst d)"
    by (rule pdict_step_distinct) (rule Cons.prems)
  from Cons.IH[OF this] show ?case by simp
qed

lemma pdict_values:
  assumes "map_of (permission_list_to_dict perms) n = Some by_arg" "v \<in> set (map snd by_arg)"
  shows "v \<in> set perms \<and> gi_name v = n \<and> map_of by_arg (gi_argument v) = Some v"
proof -
  have "distinct (map fst by_arg)"
    using pdict_fold_distinct[of "[]" perms] assms(1)
    by (simp add: permission_list_to_dict_def permission_list_to_dict_step_def)
  moreover obtain a where "(a, v) \<in> set by_arg" using assms(2) by auto
  ultimately have m: "map_of by_arg a = Some v" by simp
  have "dd_get (permission_list_to_dict perms) n = by_arg"
    using assms(1) by (simp add: dd_get_def)
  with m pdict_lookup_Some[of perms n a v] show ?thesis by simp
qed

lemma intersection_step_origin:
  assumes "y \<in> intersection_step pd p acc"
  shows "y \<in> acc
       \<or> (y = p \<and> (\<exists>by_arg. map_of pd (gi_name y) = Some by_arg \<and>
             (map_of by_arg (gi_argument y) \<noteq> None \<or> gi_argument y = [] \<or> map_of by_arg ''*'' \<noteq> None)))
       \<or> (\<exists>n by_arg. map_of pd n = Some by_arg \<and> y \<in> set (map snd by_arg))"
proof (cases "map_of pd (gi_name p)")
  case None
  with assms show ?thesis by (simp add: intersection_step_def)
next
  case (Some by_arg)
  show ?thesis
  proof (cases "map_of by_arg (gi_argument p) \<noteq> None \<or> gi_argument p = [] \<or> map_of by_arg ''*'' \<noteq> None")
    case True
    with assms Some show ?thesis
      by (auto simp: intersection_step_def split: if_splits)
  next
    case False
    show ?thesis
    proof (cases "map_of by_arg []")
      case None
      with assms Some False have "y \<in> acc \<or> y \<in> set (map snd by_arg)"
        by (auto simp: intersection_step_def split: if_splits)
      with Some show ?thesis by blast
    next
      case (Some u)
      then have "u \<in> set (map snd by_arg)"
        by (auto dest!: map_of_SomeD intro: rev_image_eqI)
      moreover from assms \<open>map_of pd (gi_name p) = Some by_arg\<close> False Some
      have "y \<in> acc \<or> y = u"
        by (auto simp: intersection_step_def split: if_splits)
      ultimately show ?thesis using \<open>map_of pd (gi_name p) = Some by_arg\<close> by blast
    qed
  qed
qed

lemma intersection_fold_origin:
  assumes "y \<in> fold (intersection_step pd) perms_a acc"
  shows "y \<in> acc
       \<or> (y \<in> set perms_a \<and> (\<exists>by_arg. map_of pd (gi_name y) = Some by_arg \<and>
             (map_of by_arg (gi_argument y) \<noteq> None \<or> gi_argument y = [] \<or> map_of by_arg ''*'' \<noteq> None)))
       \<or> (\<exists>n by_arg. map_of pd n = Some by_arg \<and> y \<in> set (map snd by_arg))"
  using assms
proof (induction perms_a arbitrary: acc)
  case Nil
  then show ?case by simp
next
  case (Cons p ps)
  from Cons.prems have "y \<in> fold (intersection_step pd) ps (intersection_step pd p acc)"
    by simp
  from Cons.IH[OF this] intersection_step_origin[of y pd p acc]
  show ?case by (simp del: set_map) blast
qed

lemma intersection_fold_mono:
  "acc \<subseteq> fold (intersection_step pd) perms_a acc"
proof (induction perms_a arbitrary: acc)
  case Nil
  then show ?case by simp
next
  case (Cons p ps)
  have "acc \<subseteq> intersection_step pd p acc"
    by (auto simp: intersection_step_def split: option.splits)
  with Cons.IH[of "intersection_step pd p acc"] show ?case by auto
qed

lemma intersection_fold_unargumented:
  assumes "x \<in> set perms_a" "map_of pd (gi_name x) = Some by_arg"
    "map_of by_arg (gi_argument x) = None" "gi_argument x \<noteq> []"
    "map_of by_arg ''*'' = None" "map_of by_arg [] = Some b"
  shows "b \<in> fold (intersection_step pd) perms_a acc"
  using assms(1)
proof (induction perms_a arbitrary: acc)
  case Nil
  then show ?case by simp
next
  case (Cons p ps)
  show ?case
  proof (cases "x = p")
    case True
    then have "b \<in> intersection_step pd p acc"
      using assms(2-) by (simp add: intersection_step_def)
    with intersection_fold_mono[of "intersection_step pd p acc" pd ps] show ?thesis by auto
  next
    case False
    with Cons.prems have "x \<in> set ps" by simp
    from Cons.IH[OF this] show ?thesis by simp
  qed
qed

lemma intersection_prefers_unargumented:
  assumes "x \<in> set perms_a"
    and "\<forall>p\<in>set perms_b. \<not> (gi_name p = gi_name x \<and> gi_argument p = gi_argument x)"
    and "gi_argument x \<noteq> []"
    and "\<forall>p\<in>set perms_b. \<not> (gi_name p = gi_name x \<and> gi_argument p = ''*'')"
    and "\<exists>p\<in>set perms_b. gi_name p = gi_name x \<and> gi_argument p = []"
  shows "(\<exists>b\<in>set perms_b. gi_name b = gi_name x \<and> gi_argument b = []
            \<and> b \<in> permission_intersection perms_a perms_b)
         \<and> x \<notin> permission_intersection perms_a perms_b"
proof -
  let ?pd = "permission_list_to_dict perms_b"
  from assms(5) have "gi_name x \<in> gi_name ` set perms_b" by (metis imageI)
  then have "map_of ?pd (gi_name x) \<noteq> None" by (simp add: pdict_keys)
  then obtain by_arg where ba: "map_of ?pd (gi_name x) = Some by_arg" by auto
  then have dg: "dd_get ?pd (gi_name x) = by_arg" by (simp add: dd_get_def)
  have n1: "map_of by_arg (gi_argument x) = None"
    using pdict_lookup_None[of perms_b "gi_name x" "gi_argument x"] assms(2) dg by simp
  have n2: "map_of by_arg ''*'' = None"
    using pdict_lookup_None[of perms_b "gi_name x" "''*''"] assms(4) dg by simp
  have "map_of by_arg [] \<noteq> None"
    using pdict_lookup_None[of perms_b "gi_name x" "[]"] assms(5) dg by auto
  then obtain b where b: "map_of by_arg [] = Some b" by auto
  have bprops: "b \<in> set perms_b \<and> gi_name b = gi_name x \<and> gi_argument b = []"
    using pdict_lookup_Some[of perms_b "gi_name x" "[]" b] b dg by simp
  have bin: "b \<in> permission_intersection perms_a perms_b"
    unfolding permission_intersection_def
    by (rule intersection_fold_unargumented[OF assms(1) ba n1 assms(3) n2 b])
  have "x \<notin> permission_intersection perms_a perms_b"
  proof
    assume "x \<in> permission_intersection perms_a perms_b"
    then have "x \<in> fold (intersection_step ?pd) perms_a {}"
      by (simp add: permission_intersection_def)
    from intersection_fold_origin[OF this]
    consider (a) "\<exists>by_arg. map_of ?pd (gi_name x) = Some by_arg \<and>
             (map_of by_arg (gi_argument x) \<noteq> None \<or> gi_argument x = [] \<or> map_of by_arg ''*'' \<noteq> None)"
      | (b) "\<exists>n by_arg. map_of ?pd n = Some by_arg \<and> x \<in> set (map snd by_arg)"
      by auto
    then show False
    proof cases
      case a
      with ba n1 n2 assms(3) show False by auto
    next
      case b
      then obtain n d where d: "map_of ?pd n = Some d" "x \<in> set (map snd d)" by auto
      from pdict_values[OF this] have "gi_name x = n" "map_of d (gi_argument x) = Some x" by auto
      with d(1) ba n1 show False by simp
    qed
  qed
  with bin bprops show ?thesis by auto
qed

text \<open>
  C7. Let an item \<open>x\<close> of A have a name that occurs in B, with no item of B carrying its
  exact (name, argument), an argument that is not empty, no wildcard item of that name in
  B, and an unargumented item of that name in B. Then the result holds an unargumented
  item of B of that name, and it does not hold \<open>x\<close>. In particular, intersecting
  \<open>(p, *)\<close> with \<open>(p, empty)\<close> gives \<open>(p, empty)\<close> in either order.
\<close>

theorem permission_intersection_unargumented:
  "(x \<in> set perms_a
     \<and> (\<forall>p\<in>set perms_b. \<not> (gi_name p = gi_name x \<and> gi_argument p = gi_argument x))
     \<and> gi_argument x \<noteq> []
     \<and> (\<forall>p\<in>set perms_b. \<not> (gi_name p = gi_name x \<and> gi_argument p = ''*''))
     \<and> (\<exists>p\<in>set perms_b. gi_name p = gi_name x \<and> gi_argument p = [])
    \<longrightarrow> (\<exists>b\<in>set perms_b. gi_name b = gi_name x \<and> gi_argument b = []
            \<and> b \<in> permission_intersection perms_a perms_b)
         \<and> x \<notin> permission_intersection perms_a perms_b)
   \<and> permission_intersection [\<lparr>gi_name = n, gi_argument = ''*''\<rparr>] [\<lparr>gi_name = n, gi_argument = []\<rparr>]
       = {\<lparr>gi_name = n, gi_argument = []\<rparr>}
   \<and> permission_intersection [\<lparr>gi_name = n, gi_argument = []\<rparr>] [\<lparr>gi_name = n, gi_argument = ''*''\<rparr>]
       = {\<lparr>gi_name = n, gi_argument = []\<rparr>}"
proof -
  have examples:
    "permission_intersection [\<lparr>gi_name = n, gi_argument = ''*''\<rparr>] [\<lparr>gi_name = n, gi_argument = []\<rparr>]
       = {\<lparr>gi_name = n, gi_argument = []\<rparr>}"
    "permission_intersection [\<lparr>gi_name = n, gi_argument = []\<rparr>] [\<lparr>gi_name = n, gi_argument = ''*''\<rparr>]
       = {\<lparr>gi_name = n, gi_argument = []\<rparr>}"
    by (simp_all add: permission_intersection_def permission_list_to_dict_def
        permission_list_to_dict_step_def intersection_step_def dd_get_def)
  show ?thesis
    using intersection_prefers_unargumented [of x perms_a perms_b] examples by blast
qed

theorem permission_intersection_unargumented_witness:
  "(\<exists>b\<in>set [\<lparr>gi_name = ''ssh'', gi_argument = ''west''\<rparr>, \<lparr>gi_name = ''ssh'', gi_argument = []\<rparr>].
      gi_name b = ''ssh'' \<and> gi_argument b = []
      \<and> b \<in> permission_intersection [\<lparr>gi_name = ''ssh'', gi_argument = ''east''\<rparr>]
             [\<lparr>gi_name = ''ssh'', gi_argument = ''west''\<rparr>, \<lparr>gi_name = ''ssh'', gi_argument = []\<rparr>])
   \<and> \<lparr>gi_name = ''ssh'', gi_argument = ''east''\<rparr>
       \<notin> permission_intersection [\<lparr>gi_name = ''ssh'', gi_argument = ''east''\<rparr>]
            [\<lparr>gi_name = ''ssh'', gi_argument = ''west''\<rparr>, \<lparr>gi_name = ''ssh'', gi_argument = []\<rparr>]"
  using permission_intersection_unargumented
    [of "\<lparr>gi_name = ''ssh'', gi_argument = ''east''\<rparr>"
        "[\<lparr>gi_name = ''ssh'', gi_argument = ''east''\<rparr>]"
        "[\<lparr>gi_name = ''ssh'', gi_argument = ''west''\<rparr>, \<lparr>gi_name = ''ssh'', gi_argument = []\<rparr>]"]
  by simp

section \<open>Properties of the request workflow\<close>

lemmas session_ops =
  commit_def rollback_def add_status_change_def add_comment_def add_permission_map_def
  add_request_def set_request_status_def Counter_incr_def AuditLog_log_def send_email_def

lemmas ex_defs =
  ex_env_def ex_session_def ex_tables_def ex_request_session_def ex_request_tables_def
  perm_net_def perm_net_ops_def perm_ssh_def perm_old_def perm_admin_def perm_grant_def
  group_team_def group_lab_def group_admins_def alice_def mallory_def
  req_done_def req_team_ssh_def req_lab_ssh_def req_team_net_def

lemma update_request_same_status:
  "pr_status request = new_status \<Longrightarrow>
   update_request env session request usr new_status c = (Inr (), session)"
  by (simp add: update_request_def)

lemma update_request_not_auditor:
  assumes "pr_status request \<noteq> ''actioned''" "p_audited (pr_permission request)"
    "\<not> list_all (is_auditor env) (controllers env (pr_group request))"
  shows "update_request env session request usr ''actioned'' c = (Inl UserNotAuditor, session)"
  using assms by (simp add: update_request_def assert_controllers_are_auditors_def)

lemma update_request_UserNotAuditor_unchanged:
  assumes "update_request env session request usr new_status c = (Inl UserNotAuditor, s')"
  shows "s' = session"
  using assms
  by (auto simp: update_request_def assert_controllers_are_auditors_def Let_def
      grant_permission_def split: prod.splits sum.splits error.splits if_splits)

lemma create_request_error_unchanged:
  assumes "create_request env session usr grp permission argument reason = (Inl e, s')"
  shows "s' = session"
  using assms
  by (auto simp: create_request_def Let_def split: if_splits sum.splits)

lemma update_request_durable_status_changes:
  assumes "pr_status request \<noteq> new_status"
    "new_status = ''actioned'' \<and> p_audited (pr_permission request)
        \<longrightarrow> list_all (is_auditor env) (controllers env (pr_group request))"
  shows "status_changes (durable (snd (update_request env session request usr new_status c)))
         = status_changes (view session) @
           [\<lparr>sc_id = next_id (map sc_id (status_changes (view session))),
             sc_request_id = pr_id request, sc_user_id = u_id usr,
             sc_from_status = Some (pr_status request), sc_to_status = new_status,
             sc_change_at = utcnow env\<rparr>]"
  using assms
  by (auto simp: update_request_def assert_controllers_are_auditors_def Let_def
      grant_permission_def session_ops split: prod.splits sum.splits error.splits if_splits)

lemma update_request_durable_requests:
  assumes "pr_status request \<noteq> new_status"
    "new_status = ''actioned'' \<and> p_audited (pr_permission request)
        \<longrightarrow> list_all (is_auditor env) (controllers env (pr_group request))"
  shows "requests (durable (snd (update_request env session request usr new_status c)))
         = map (\<lambda>r. if pr_id r = pr_id request then r\<lparr>pr_status := new_status\<rparr> else r)
               (requests (view session))"
  using assms
  by (auto simp: update_request_def assert_controllers_are_auditors_def Let_def
      grant_permission_def session_ops split: prod.splits sum.splits error.splits if_splits)

lemma update_request_durable_comments:
  assumes "pr_status request \<noteq> new_status"
    "new_status = ''actioned'' \<and> p_audited (pr_permission request)
        \<longrightarrow> list_all (is_auditor env) (controllers env (pr_group request))"
  shows "comments (durable (snd (update_request env session request usr new_status c)))
         = comments (view session) @
           [\<lparr>c_obj_type = status_change_obj_type env,
             c_obj_pk = next_id (map sc_id (status_changes (view session))),
             c_user_id = u_id usr, c_comment = c, c_created_on = utcnow env\<rparr>]"
  using assms
  by (auto simp: update_request_def assert_controllers_are_auditors_def Let_def
      grant_permission_def session_ops split: prod.splits sum.splits error.splits if_splits)

lemma update_request_returns:
  assumes "pr_status request \<noteq> new_status"
    "new_status = ''actioned'' \<and> p_audited (pr_permission request)
        \<longrightarrow> list_all (is_auditor env) (controllers env (pr_group request))"
    "new_status = ''actioned'' \<longrightarrow> ARGUMENT_VALIDATION env (pr_argument request)"
  shows "fst (update_request env session request usr new_status c) = Inr ()"
  using assms
  by (auto simp: update_request_def assert_controllers_are_auditors_def Let_def
      grant_permission_def session_ops split: prod.splits sum.splits error.splits if_splits)

lemma update_request_audit_and_mail:
  assumes "pr_status request \<noteq> new_status"
    "new_status = ''actioned'' \<and> p_audited (pr_permission request)
        \<longrightarrow> list_all (is_auditor env) (controllers env (pr_group request))"
    "new_status = ''actioned'' \<longrightarrow> ARGUMENT_VALIDATION env (pr_argument request)"
  shows "audit_log (durable (snd (update_request env session request usr new_status c)))
         = audit_log (view session) @
           [\<lparr>al_actor_id = u_id usr, al_action = ''update_perm_request'',
             al_description = ''updated permission request to status: '' @ new_status,
             al_on_group_id = g_id (pr_group request),
             al_on_user_id = u_id (pr_requester request),
             al_on_permission_id = p_id (pr_permission request)\<rparr>]
       \<and> outbox (snd (update_request env session request usr new_status c))
         = outbox session @
           [\<lparr>em_recipients = {u_name (pr_requester request)},
             em_subject = ''Re: '' @ render_subject env (p_name (pr_permission request))
                                      (g_name (pr_group request)),
             em_template = (if new_status = ''actioned'' then ''permission_request_actioned''
                            else ''permission_request_cancelled''),
             em_context = [(''group_name'', Str (g_name (pr_group request))),
                           (''action_taken_by'', Str (u_name usr)),
                           (''reason'', Str c),
                           (''permission_name'', Str (p_name (pr_permission request))),
                           (''argument'', Str (pr_argument request))]\<rparr>]"
  using assms
  by (auto simp: update_request_def assert_controllers_are_auditors_def Let_def
      grant_permission_def session_ops split: prod.splits sum.splits error.splits if_splits)

lemma update_request_grant_present:
  assumes "pr_status request \<noteq> ''actioned''"
    "p_audited (pr_permission request)
        \<longrightarrow> list_all (is_auditor env) (controllers env (pr_group request))"
    "ARGUMENT_VALIDATION env (pr_argument request)"
  shows "list_ex (\<lambda>pm. pm_permission_id pm = p_id (pr_permission request)
                      \<and> pm_group_id pm = g_id (pr_group request)
                      \<and> pm_argument pm = pr_argument request)
           (permission_maps (durable (snd (update_request env session request usr ''actioned'' c))))"
  using assms
  by (auto simp: update_request_def assert_controllers_are_auditors_def Let_def list_ex_iff
      grant_permission_def session_ops split: prod.splits sum.splits error.splits if_splits)

lemma update_request_conflict_maps:
  assumes "pr_status request \<noteq> ''actioned''"
    "p_audited (pr_permission request)
        \<longrightarrow> list_all (is_auditor env) (controllers env (pr_group request))"
    "ARGUMENT_VALIDATION env (pr_argument request)"
    "list_ex (\<lambda>pm. pm_permission_id pm = p_id (pr_permission request)
                      \<and> pm_group_id pm = g_id (pr_group request)
                      \<and> pm_argument pm = pr_argument request)
           (permission_maps (view session))"
  shows "permission_maps (durable (snd (update_request env session request usr ''actioned'' c)))
           = permission_maps (view session)
       \<and> view (snd (update_request env session request usr ''actioned'' c))
           = durable (snd (update_request env session request usr ''actioned'' c))"
  using assms
  by (auto simp: update_request_def assert_controllers_are_auditors_def Let_def list_ex_iff
      grant_permission_def session_ops split: prod.splits sum.splits error.splits if_splits)

lemma update_request_outcome_user_independent:
  "fst (update_request env session request usr new_status c)
   = fst (update_request env session request usr2 new_status c2)"
  by (auto simp: update_request_def assert_controllers_are_auditors_def Let_def list_ex_iff
      grant_permission_def session_ops split: prod.splits sum.splits error.splits if_splits)


text \<open>
  C1, as the code has it. A call whose new status is the request's current status changes
  nothing. Any other call that passes the auditor check moves the stored request from its
  current status, whatever that is, to the new status, and appends one status-change row
  from the old status to the new one: \<open>update_request\<close> checks neither that the current
  status is \<open>pending\<close> nor that the new one is not.
\<close>

theorem update_request_transition:
  "(pr_status request = new_status \<longrightarrow>
      update_request env session request usr new_status c = (Inr (), session))
   \<and> (pr_status request \<noteq> new_status
       \<and> (new_status = ''actioned'' \<and> p_audited (pr_permission request)
            \<longrightarrow> list_all (is_auditor env) (controllers env (pr_group request)))
      \<longrightarrow> requests (durable (snd (update_request env session request usr new_status c)))
            = map (\<lambda>r. if pr_id r = pr_id request then r\<lparr>pr_status := new_status\<rparr> else r)
                  (requests (view session))
          \<and> status_changes (durable (snd (update_request env session request usr new_status c)))
            = status_changes (view session) @
              [\<lparr>sc_id = next_id (map sc_id (status_changes (view session))),
                sc_request_id = pr_id request, sc_user_id = u_id usr,
                sc_from_status = Some (pr_status request), sc_to_status = new_status,
                sc_change_at = utcnow env\<rparr>])"
  using update_request_same_status [of request new_status env session usr c]
    update_request_durable_requests [of request new_status env session usr c]
    update_request_durable_status_changes [of request new_status env session usr c]
  by blast

theorem update_request_transition_witness:
  "update_request ex_env ex_request_session req_team_net mallory ''pending'' ''again''
     = (Inr (), ex_request_session)
   \<and> pr_status req_done = ''actioned''
   \<and> map pr_status (requests (durable (snd
        (update_request ex_env ex_request_session req_done mallory ''cancelled'' ''undo''))))
     = [''cancelled'', ''pending'', ''pending'', ''pending'']
   \<and> map sc_from_status (status_changes (durable (snd
        (update_request ex_env ex_request_session req_done mallory ''cancelled'' ''undo''))))
     = [Some ''actioned'']"
proof -
  have h1: "pr_status req_team_net = ''pending''" by (simp add: req_team_net_def)
  have h2: "pr_status req_done \<noteq> ''cancelled''" "pr_status req_done = ''actioned''"
    by (simp_all add: req_done_def)
  have h3: "''cancelled'' = ''actioned'' \<and> p_audited (pr_permission req_done)
            \<longrightarrow> list_all (is_auditor ex_env) (controllers ex_env (pr_group req_done))"
    by simp
  have v: "requests (view ex_request_session) = [req_done, req_team_ssh, req_lab_ssh, req_team_net]"
    "status_changes (view ex_request_session) = []"
    by (simp_all add: ex_request_session_def ex_request_tables_def ex_tables_def)
  have ids: "pr_id req_done = 1" "pr_id req_team_ssh = 2" "pr_id req_lab_ssh = 3" "pr_id req_team_net = 4"
    "pr_status req_team_ssh = ''pending''" "pr_status req_lab_ssh = ''pending''"
    by (simp_all add: req_done_def req_team_ssh_def req_lab_ssh_def req_team_net_def)
  from update_request_transition
         [of req_team_net "''pending''" ex_env ex_request_session mallory "''again''"] h1
  have a: "update_request ex_env ex_request_session req_team_net mallory ''pending'' ''again''
             = (Inr (), ex_request_session)" by blast
  from update_request_transition
         [of req_done "''cancelled''" ex_env ex_request_session mallory "''undo''"] h2(1) h3
  have b: "requests (durable (snd
             (update_request ex_env ex_request_session req_done mallory ''cancelled'' ''undo'')))
           = map (\<lambda>r. if pr_id r = pr_id req_done then r\<lparr>pr_status := ''cancelled''\<rparr> else r)
                 (requests (view ex_request_session))"
    and c: "status_changes (durable (snd
             (update_request ex_env ex_request_session req_done mallory ''cancelled'' ''undo'')))
            = status_changes (view ex_request_session) @
              [\<lparr>sc_id = next_id (map sc_id (status_changes (view ex_request_session))),
                sc_request_id = pr_id req_done, sc_user_id = u_id mallory,
                sc_from_status = Some (pr_status req_done), sc_to_status = ''cancelled'',
                sc_change_at = utcnow ex_env\<rparr>]"
    by blast+
  show ?thesis
    unfolding a b c v using h1 h2(2) ids by simp
qed

text \<open>
  The claim fails as stated: an \<open>actioned\<close> request is moved to \<open>cancelled\<close>, and back to
  \<open>pending\<close>.
\<close>

theorem update_request_terminal_counterexample:
  "pr_status req_done = ''actioned''
   \<and> fst (update_request ex_env ex_request_session req_done mallory ''cancelled'' ''undo'') = Inr ()
   \<and> map pr_status (requests (durable (snd
        (update_request ex_env ex_request_session req_done mallory ''cancelled'' ''undo''))))
     = [''cancelled'', ''pending'', ''pending'', ''pending'']
   \<and> fst (update_request ex_env ex_request_session req_done mallory ''pending'' ''reopen'') = Inr ()
   \<and> map pr_status (requests (durable (snd
        (update_request ex_env ex_request_session req_done mallory ''pending'' ''reopen''))))
     = [''pending'', ''pending'', ''pending'', ''pending'']"
  by (simp add: update_request_def Let_def session_ops ex_defs)

lemma create_request_already_granted:
  assumes "list_ex (\<lambda>(_, existing_perm_name, _, existing_perm_argument, _).
                    p_name permission = existing_perm_name \<and> argument = existing_perm_argument)
                 (my_permissions env grp)"
  shows "create_request env session usr grp permission argument reason
         = (Inl RequestAlreadyGranted, session)"
  using assms by (simp add: create_request_def)

lemma create_request_already_exists:
  assumes "\<not> list_ex (\<lambda>(_, existing_perm_name, _, existing_perm_argument, _).
                    p_name permission = existing_perm_name \<and> argument = existing_perm_argument)
                 (my_permissions env grp)"
    and "filter (\<lambda>r. g_id (pr_group r) = g_id grp
                      \<and> p_id (pr_permission r) = p_id permission
                      \<and> pr_argument r = argument
                      \<and> pr_status r = ''pending'')
                (requests (view session)) \<noteq> []"
  shows "create_request env session usr grp permission argument reason
         = (Inl RequestAlreadyExists, session)"
  using assms by (simp add: create_request_def)

lemma create_request_no_owners:
  assumes "\<not> list_ex (\<lambda>(_, existing_perm_name, _, existing_perm_argument, _).
                    p_name permission = existing_perm_name \<and> argument = existing_perm_argument)
                 (my_permissions env grp)"
    and "filter (\<lambda>r. g_id (pr_group r) = g_id grp
                      \<and> p_id (pr_permission r) = p_id permission
                      \<and> pr_argument r = argument
                      \<and> pr_status r = ''pending'')
                (requests (view session)) = []"
    and "get_owners_by_grantable_permission env session True = Inr obo"
    and "get_owner_arg_list env session permission argument (Some obo) = Inr []"
  shows "create_request env session usr grp permission argument reason
         = (Inl NoOwnersAvailable, session)"
  using assms by (simp add: create_request_def)

lemma create_request_not_auditor:
  assumes "\<not> list_ex (\<lambda>(_, existing_perm_name, _, existing_perm_argument, _).
                    p_name permission = existing_perm_name \<and> argument = existing_perm_argument)
                 (my_permissions env grp)"
    and "filter (\<lambda>r. g_id (pr_group r) = g_id grp
                      \<and> p_id (pr_permission r) = p_id permission
                      \<and> pr_argument r = argument
                      \<and> pr_status r = ''pending'')
                (requests (view session)) = []"
    and "get_owners_by_grantable_permission env session True = Inr obo"
    and "get_owner_arg_list env session permission argument (Some obo) = Inr (x # xs)"
    and "p_audited permission"
    and "\<not> list_all (is_auditor env) (controllers env grp)"
  shows "create_request env session usr grp permission argument reason
         = (Inl UserNotAuditor, session)"
  using assms by (simp add: create_request_def assert_controllers_are_auditors_def)

text \<open>
  C4. Whenever \<open>create_request\<close> raises an error, the session it leaves is the session it
  was given: the already-granted check, the duplicate-pending check, the owner-availability
  check and the auditor check all come before the first row is added. Whenever
  \<open>update_request\<close> raises the auditor error, the session is unchanged as well. In
  particular, an update to \<open>actioned\<close> of a pending request for an audited permission, on a
  group with a controller that is not an auditor, raises the auditor error and leaves the
  session as it was: the request is still pending and there is no new status-change row.
\<close>

theorem validation_precedes_mutation:
  "(create_request env session usr grp permission argument reason = (Inl e, s1) \<longrightarrow> s1 = session)
   \<and> (update_request env session request usr new_status c = (Inl UserNotAuditor, s2)
        \<longrightarrow> s2 = session)
   \<and> (pr_status request = ''pending'' \<and> p_audited (pr_permission request)
       \<and> (\<exists>u\<in>set (controllers env (pr_group request)). \<not> is_auditor env u)
      \<longrightarrow> update_request env session request usr ''actioned'' c = (Inl UserNotAuditor, session))"
proof (intro conjI impI)
  assume "create_request env session usr grp permission argument reason = (Inl e, s1)"
  then show "s1 = session" by (rule create_request_error_unchanged)
next
  assume "update_request env session request usr new_status c = (Inl UserNotAuditor, s2)"
  then show "s2 = session" by (rule update_request_UserNotAuditor_unchanged)
next
  assume a: "pr_status request = ''pending'' \<and> p_audited (pr_permission request)
       \<and> (\<exists>u\<in>set (controllers env (pr_group request)). \<not> is_auditor env u)"
  then have "pr_status request \<noteq> ''actioned''" by simp
  moreover from a have "\<not> list_all (is_auditor env) (controllers env (pr_group request))"
    by (auto simp: list_all_iff)
  ultimately show "update_request env session request usr ''actioned'' c = (Inl UserNotAuditor, session)"
    using a by (intro update_request_not_auditor) auto
qed

lemma ex_owner_map:
  "get_owners_by_grantable_permission ex_env ex_request_session True
   = Inr [(Perm ''net-ops'', [(''east'', [group_lab]), (''*'', [group_admins])]),
          (Perm ''net'', [(''east'', [group_lab]), (''*'', [group_admins])]),
          (Perm ''grouper.admin.permissions'', [(''*'', [group_admins])]),
          (Perm ''grouper.permission.grant'', [(''*'', [group_admins])]),
          (Perm ''ssh'', [(''*'', [group_admins])]),
          (GLOBAL_OWNERS, [(''*'', [group_admins])])]"
  by (simp add: get_owners_by_grantable_permission_def get_all_permissions_def
      permissions_by_name_def all_group_permissions_def dd_append_def dd_get_def py_any_def
      filter_grantable_permissions_def catalog_or_default_def grantable_of_grant_def
      split_once_def owners_extend_def owners_at_def merge_plugin_owners_def ex_defs)


lemma ex_create_errors:
  "fst (create_request ex_env ex_request_session alice group_team perm_ssh ''east'' ''why'')
     = Inl RequestAlreadyGranted"
  "fst (create_request ex_env ex_request_session alice group_team perm_net ''east'' ''why'')
     = Inl RequestAlreadyExists"
  "fst (create_request ex_env ex_request_session alice group_lab perm_old ''east'' ''why'')
     = Inl NoOwnersAvailable"
  "fst (create_request ex_env ex_request_session alice group_lab perm_ssh ''north'' ''why'')
     = Inl UserNotAuditor"
proof -
  show "fst (create_request ex_env ex_request_session alice group_team perm_ssh ''east'' ''why'')
     = Inl RequestAlreadyGranted"
    by (subst create_request_already_granted) (simp_all add: ex_defs)
  show "fst (create_request ex_env ex_request_session alice group_team perm_net ''east'' ''why'')
     = Inl RequestAlreadyExists"
    by (subst create_request_already_exists) (simp_all add: ex_defs)
  show "fst (create_request ex_env ex_request_session alice group_lab perm_old ''east'' ''why'')
     = Inl NoOwnersAvailable"
    by (subst create_request_no_owners[OF _ _ ex_owner_map])
       (simp_all add: get_owner_arg_list_def dd_get_def ex_defs)
  show "fst (create_request ex_env ex_request_session alice group_lab perm_ssh ''north'' ''why'')
     = Inl UserNotAuditor"
    by (subst create_request_not_auditor[OF _ _ ex_owner_map, where x = "(group_admins, ''*'')" and xs = "[]"])
       (simp_all add: get_owner_arg_list_def dd_get_def ex_defs)
qed

theorem validation_precedes_mutation_witness:
  "create_request ex_env ex_request_session alice group_team perm_ssh ''east'' ''why''
     = (Inl RequestAlreadyGranted, ex_request_session)
   \<and> create_request ex_env ex_request_session alice group_team perm_net ''east'' ''why''
     = (Inl RequestAlreadyExists, ex_request_session)
   \<and> create_request ex_env ex_request_session alice group_lab perm_old ''east'' ''why''
     = (Inl NoOwnersAvailable, ex_request_session)
   \<and> create_request ex_env ex_request_session alice group_lab perm_ssh ''north'' ''why''
     = (Inl UserNotAuditor, ex_request_session)
   \<and> pr_status req_lab_ssh = ''pending'' \<and> p_audited (pr_permission req_lab_ssh)
   \<and> (\<exists>u\<in>set (controllers ex_env (pr_group req_lab_ssh)). \<not> is_auditor ex_env u)
   \<and> update_request ex_env ex_request_session req_lab_ssh alice ''actioned'' ''ok''
     = (Inl UserNotAuditor, ex_request_session)"
proof -
  have unchanged: "create_request ex_env ex_request_session u g p a r = (Inl e, ex_request_session)"
    if "fst (create_request ex_env ex_request_session u g p a r) = Inl e" for u g p a r e
  proof -
    from that have "create_request ex_env ex_request_session u g p a r
                    = (Inl e, snd (create_request ex_env ex_request_session u g p a r))"
      by (metis prod.collapse)
    with validation_precedes_mutation
           [where env = ex_env and session = ex_request_session and usr = u and grp = g
              and permission = p and argument = a and reason = r and e = e
              and ?s1.0 = "snd (create_request ex_env ex_request_session u g p a r)"]
    show ?thesis by simp
  qed
  have h: "pr_status req_lab_ssh = ''pending''" "p_audited (pr_permission req_lab_ssh)"
    "\<exists>u\<in>set (controllers ex_env (pr_group req_lab_ssh)). \<not> is_auditor ex_env u"
    by (simp_all add: req_lab_ssh_def perm_ssh_def group_lab_def ex_env_def)
  from validation_precedes_mutation
         [where env = ex_env and session = ex_request_session and request = req_lab_ssh
            and usr = alice and c = "''ok''"] h
  have "update_request ex_env ex_request_session req_lab_ssh alice ''actioned'' ''ok''
          = (Inl UserNotAuditor, ex_request_session)"
    by blast
  with unchanged[OF ex_create_errors(1)] unchanged[OF ex_create_errors(2)]
    unchanged[OF ex_create_errors(3)] unchanged[OF ex_create_errors(4)] h
  show ?thesis by blast
qed

text \<open>
  C6, as the code has it. When the pair (permission name, argument) is among the group's
  permissions, \<open>create_request\<close> raises \<open>RequestAlreadyGranted\<close>. When it is not, and a
  pending request for the same group, permission and argument is in the session,
  \<open>create_request\<close> raises \<open>RequestAlreadyExists\<close>. In both cases the session is returned
  unchanged, so no request is created.
\<close>

theorem create_request_duplicate_guards:
  "((p_name permission, argument)
       \<in> (\<lambda>(_, name, _, arg, _). (name, arg)) ` set (my_permissions env grp)
     \<longrightarrow> create_request env session usr grp permission argument reason
           = (Inl RequestAlreadyGranted, session))
   \<and> ((p_name permission, argument)
         \<notin> (\<lambda>(_, name, _, arg, _). (name, arg)) ` set (my_permissions env grp)
       \<and> (\<exists>r\<in>set (requests (view session)).
             g_id (pr_group r) = g_id grp \<and> p_id (pr_permission r) = p_id permission
             \<and> pr_argument r = argument \<and> pr_status r = ''pending'')
      \<longrightarrow> create_request env session usr grp permission argument reason
            = (Inl RequestAlreadyExists, session))"
proof (intro conjI impI)
  assume "(p_name permission, argument)
       \<in> (\<lambda>(_, name, _, arg, _). (name, arg)) ` set (my_permissions env grp)"
  then have "list_ex (\<lambda>(_, existing_perm_name, _, existing_perm_argument, _).
                    p_name permission = existing_perm_name \<and> argument = existing_perm_argument)
                 (my_permissions env grp)"
    by (force simp: list_ex_iff)
  then show "create_request env session usr grp permission argument reason
           = (Inl RequestAlreadyGranted, session)"
    by (rule create_request_already_granted)
next
  assume a: "(p_name permission, argument)
         \<notin> (\<lambda>(_, name, _, arg, _). (name, arg)) ` set (my_permissions env grp)
       \<and> (\<exists>r\<in>set (requests (view session)).
             g_id (pr_group r) = g_id grp \<and> p_id (pr_permission r) = p_id permission
             \<and> pr_argument r = argument \<and> pr_status r = ''pending'')"
  then have "\<not> list_ex (\<lambda>(_, existing_perm_name, _, existing_perm_argument, _).
                    p_name permission = existing_perm_name \<and> argument = existing_perm_argument)
                 (my_permissions env grp)"
    by (force simp: list_ex_iff)
  moreover from a have "filter (\<lambda>r. g_id (pr_group r) = g_id grp
                      \<and> p_id (pr_permission r) = p_id permission
                      \<and> pr_argument r = argument
                      \<and> pr_status r = ''pending'')
                (requests (view session)) \<noteq> []"
    by (auto simp: filter_empty_conv)
  ultimately show "create_request env session usr grp permission argument reason
            = (Inl RequestAlreadyExists, session)"
    by (rule create_request_already_exists)
qed

theorem create_request_duplicate_guards_witness:
  "(''ssh'', ''east'') \<in> (\<lambda>(_, name, _, arg, _). (name, arg)) ` set (my_permissions ex_env group_team)
   \<and> create_request ex_env ex_request_session alice group_team perm_ssh ''east'' ''why''
       = (Inl RequestAlreadyGranted, ex_request_session)
   \<and> (''net'', ''east'') \<notin> (\<lambda>(_, name, _, arg, _). (name, arg)) ` set (my_permissions ex_env group_team)
   \<and> req_team_net \<in> set (requests (view ex_request_session))
   \<and> create_request ex_env ex_request_session alice group_team perm_net ''east'' ''why''
       = (Inl RequestAlreadyExists, ex_request_session)"
proof -
  have h1: "(p_name perm_ssh, ''east'')
            \<in> (\<lambda>(_, name, _, arg, _). (name, arg)) ` set (my_permissions ex_env group_team)"
    by (simp add: ex_env_def group_team_def perm_ssh_def)
  have h2: "(p_name perm_net, ''east'')
            \<notin> (\<lambda>(_, name, _, arg, _). (name, arg)) ` set (my_permissions ex_env group_team)"
    by (simp add: ex_env_def group_team_def perm_net_def)
  have h3: "req_team_net \<in> set (requests (view ex_request_session))"
    by (simp add: ex_request_session_def ex_request_tables_def)
  have h4: "g_id (pr_group req_team_net) = g_id group_team
            \<and> p_id (pr_permission req_team_net) = p_id perm_net
            \<and> pr_argument req_team_net = ''east'' \<and> pr_status req_team_net = ''pending''"
    by (simp add: req_team_net_def)
  have n: "p_name perm_ssh = ''ssh''" "p_name perm_net = ''net''"
    by (simp_all add: perm_ssh_def perm_net_def)
  from create_request_duplicate_guards
         [where permission = perm_ssh and argument = "''east''" and env = ex_env
            and grp = group_team and session = ex_request_session and usr = alice
            and reason = "''why''"] h1
  have a: "create_request ex_env ex_request_session alice group_team perm_ssh ''east'' ''why''
       = (Inl RequestAlreadyGranted, ex_request_session)" by blast
  from create_request_duplicate_guards
         [where permission = perm_net and argument = "''east''" and env = ex_env
            and grp = group_team and session = ex_request_session and usr = alice
            and reason = "''why''"] h2 h3 h4
  have b: "create_request ex_env ex_request_session alice group_team perm_net ''east'' ''why''
       = (Inl RequestAlreadyExists, ex_request_session)" by blast
  from a b h1 h2 h3 show ?thesis unfolding n by blast
qed

text \<open>
  The claim fails as stated where both conditions hold: the already-granted check comes
  first, so a pending request for a pair that the group already has is answered with
  \<open>RequestAlreadyGranted\<close>, not with \<open>RequestAlreadyExists\<close>.
\<close>

theorem create_request_overlap_counterexample:
  "req_team_ssh \<in> set (requests (view ex_request_session))
   \<and> g_id (pr_group req_team_ssh) = g_id group_team
   \<and> p_id (pr_permission req_team_ssh) = p_id perm_ssh
   \<and> pr_argument req_team_ssh = ''east''
   \<and> pr_status req_team_ssh = ''pending''
   \<and> create_request ex_env ex_request_session alice group_team perm_ssh ''east'' ''why''
       = (Inl RequestAlreadyGranted, ex_request_session)
   \<and> fst (create_request ex_env ex_request_session alice group_team perm_ssh ''east'' ''why'')
       \<noteq> Inl RequestAlreadyExists"
proof -
  have a: "req_team_ssh \<in> set (requests (view ex_request_session))"
    by (simp add: ex_request_session_def ex_request_tables_def)
  have b: "g_id (pr_group req_team_ssh) = g_id group_team"
    "p_id (pr_permission req_team_ssh) = p_id perm_ssh"
    "pr_argument req_team_ssh = ''east''" "pr_status req_team_ssh = ''pending''"
    by (simp_all add: req_team_ssh_def)
  have c: "create_request ex_env ex_request_session alice group_team perm_ssh ''east'' ''why''
       = (Inl RequestAlreadyGranted, ex_request_session)"
    by (rule create_request_already_granted) (simp add: ex_env_def group_team_def perm_ssh_def)
  then have d: "fst (create_request ex_env ex_request_session alice group_team perm_ssh ''east'' ''why'')
       \<noteq> Inl RequestAlreadyExists" by simp
  from a b c d show ?thesis by (intro conjI)
qed

text \<open>
  C5. Take a request that is not yet \<open>actioned\<close>, whose auditor check passes, in a session
  whose stored grants all satisfy the argument assertion of \<open>grant_permission\<close>, and let
  the grant (group, permission, argument) of the request be stored already. Then
  \<open>update_request\<close> to \<open>actioned\<close> returns without an error; in the committed tables the
  request is \<open>actioned\<close>, there is exactly one more status-change row and one more comment,
  and the grants are as they were. The rows survive the rollback that answers the conflict,
  so they were committed before the grant step.
\<close>

theorem update_request_swallows_conflict:
  "pr_status request \<noteq> ''actioned''
   \<and> (p_audited (pr_permission request)
        \<longrightarrow> list_all (is_auditor env) (controllers env (pr_group request)))
   \<and> (\<forall>pm\<in>set (permission_maps (view session)). ARGUMENT_VALIDATION env (pm_argument pm))
   \<and> (\<exists>pm\<in>set (permission_maps (view session)).
         pm_permission_id pm = p_id (pr_permission request)
         \<and> pm_group_id pm = g_id (pr_group request)
         \<and> pm_argument pm = pr_argument request)
   \<longrightarrow> (\<exists>s'. update_request env session request usr ''actioned'' c = (Inr (), s')
         \<and> requests (durable s')
             = map (\<lambda>r. if pr_id r = pr_id request then r\<lparr>pr_status := ''actioned''\<rparr> else r)
                   (requests (view session))
         \<and> status_changes (durable s')
             = status_changes (view session) @
               [\<lparr>sc_id = next_id (map sc_id (status_changes (view session))),
                 sc_request_id = pr_id request, sc_user_id = u_id usr,
                 sc_from_status = Some (pr_status request), sc_to_status = ''actioned'',
                 sc_change_at = utcnow env\<rparr>]
         \<and> comments (durable s')
             = comments (view session) @
               [\<lparr>c_obj_type = status_change_obj_type env,
                 c_obj_pk = next_id (map sc_id (status_changes (view session))),
                 c_user_id = u_id usr, c_comment = c, c_created_on = utcnow env\<rparr>]
         \<and> permission_maps (durable s') = permission_maps (view session)
         \<and> view s' = durable s')"
proof
  assume a: "pr_status request \<noteq> ''actioned''
   \<and> (p_audited (pr_permission request)
        \<longrightarrow> list_all (is_auditor env) (controllers env (pr_group request)))
   \<and> (\<forall>pm\<in>set (permission_maps (view session)). ARGUMENT_VALIDATION env (pm_argument pm))
   \<and> (\<exists>pm\<in>set (permission_maps (view session)).
         pm_permission_id pm = p_id (pr_permission request)
         \<and> pm_group_id pm = g_id (pr_group request)
         \<and> pm_argument pm = pr_argument request)"
  let ?r = "update_request env session request usr ''actioned'' c"
  from a have st: "pr_status request \<noteq> ''actioned''" by simp
  from a have au: "p_audited (pr_permission request)
        \<longrightarrow> list_all (is_auditor env) (controllers env (pr_group request))" by simp
  then have au': "''actioned'' = ''actioned'' \<and> p_audited (pr_permission request)
        \<longrightarrow> list_all (is_auditor env) (controllers env (pr_group request))" by simp
  from a have ok: "ARGUMENT_VALIDATION env (pr_argument request)" by metis
  from a have ex: "list_ex (\<lambda>pm. pm_permission_id pm = p_id (pr_permission request)
                      \<and> pm_group_id pm = g_id (pr_group request)
                      \<and> pm_argument pm = pr_argument request)
           (permission_maps (view session))"
    by (simp add: list_ex_iff)
  have "fst ?r = Inr ()"
    by (rule update_request_returns[OF st au']) (simp add: ok)
  then have res: "?r = (Inr (), snd ?r)" by (metis prod.collapse)
  note cm = update_request_conflict_maps[OF st au ok ex, of usr c]
  show "\<exists>s'. ?r = (Inr (), s')
         \<and> requests (durable s')
             = map (\<lambda>r. if pr_id r = pr_id request then r\<lparr>pr_status := ''actioned''\<rparr> else r)
                   (requests (view session))
         \<and> status_changes (durable s')
             = status_changes (view session) @
               [\<lparr>sc_id = next_id (map sc_id (status_changes (view session))),
                 sc_request_id = pr_id request, sc_user_id = u_id usr,
                 sc_from_status = Some (pr_status request), sc_to_status = ''actioned'',
                 sc_change_at = utcnow env\<rparr>]
         \<and> comments (durable s')
             = comments (view session) @
               [\<lparr>c_obj_type = status_change_obj_type env,
                 c_obj_pk = next_id (map sc_id (status_changes (view session))),
                 c_user_id = u_id usr, c_comment = c, c_created_on = utcnow env\<rparr>]
         \<and> permission_maps (durable s') = permission_maps (view session)
         \<and> view s' = durable s'"
  proof (intro exI[of _ "snd ?r"] conjI)
    show "?r = (Inr (), snd ?r)" by (rule res)
    show "requests (durable (snd ?r))
             = map (\<lambda>r. if pr_id r = pr_id request then r\<lparr>pr_status := ''actioned''\<rparr> else r)
                   (requests (view session))"
      by (rule update_request_durable_requests[OF st au'])
    show "status_changes (durable (snd ?r))
             = status_changes (view session) @
               [\<lparr>sc_id = next_id (map sc_id (status_changes (view session))),
                 sc_request_id = pr_id request, sc_user_id = u_id usr,
                 sc_from_status = Some (pr_status request), sc_to_status = ''actioned'',
                 sc_change_at = utcnow env\<rparr>]"
      by (rule update_request_durable_status_changes[OF st au'])
    show "comments (durable (snd ?r))
             = comments (view session) @
               [\<lparr>c_obj_type = status_change_obj_type env,
                 c_obj_pk = next_id (map sc_id (status_changes (view session))),
                 c_user_id = u_id usr, c_comment = c, c_created_on = utcnow env\<rparr>]"
      by (rule update_request_durable_comments[OF st au'])
    show "permission_maps (durable (snd ?r)) = permission_maps (view session)"
      by (rule cm[THEN conjunct1])
    show "view (snd ?r) = durable (snd ?r)"
      by (rule cm[THEN conjunct2])
  qed
qed

theorem update_request_swallows_conflict_witness:
  "pr_status req_team_ssh = ''pending''
   \<and> length (permission_maps (view ex_request_session)) = 3
   \<and> (\<exists>s'. update_request ex_env ex_request_session req_team_ssh mallory ''actioned'' ''ok''
              = (Inr (), s')
         \<and> map pr_status (requests (durable s')) = [''actioned'', ''actioned'', ''pending'', ''pending'']
         \<and> map sc_to_status (status_changes (durable s')) = [''actioned'']
         \<and> length (permission_maps (durable s')) = 3)"
proof -
  have h1: "pr_status req_team_ssh \<noteq> ''actioned''" "pr_status req_team_ssh = ''pending''"
    by (simp_all add: req_team_ssh_def)
  have h2: "p_audited (pr_permission req_team_ssh)
        \<longrightarrow> list_all (is_auditor ex_env) (controllers ex_env (pr_group req_team_ssh))"
    by (simp add: req_team_ssh_def ex_env_def group_team_def)
  have pm: "permission_maps (view ex_request_session)
            = [\<lparr>pm_permission_id = 5, pm_group_id = 3, pm_argument = [], pm_granted_on = 0\<rparr>,
               \<lparr>pm_permission_id = 6, pm_group_id = 2, pm_argument = ''net*/east'', pm_granted_on = 0\<rparr>,
               \<lparr>pm_permission_id = 3, pm_group_id = 1, pm_argument = ''east'', pm_granted_on = 0\<rparr>]"
    by (simp add: ex_request_session_def ex_request_tables_def ex_tables_def)
  have h3: "\<forall>pm\<in>set (permission_maps (view ex_request_session)).
              ARGUMENT_VALIDATION ex_env (pm_argument pm)"
    unfolding pm by (simp add: ex_env_def)
  have h4: "\<exists>pm\<in>set (permission_maps (view ex_request_session)).
         pm_permission_id pm = p_id (pr_permission req_team_ssh)
         \<and> pm_group_id pm = g_id (pr_group req_team_ssh)
         \<and> pm_argument pm = pr_argument req_team_ssh"
    unfolding pm by (simp add: req_team_ssh_def perm_ssh_def group_team_def)
  have v: "requests (view ex_request_session) = [req_done, req_team_ssh, req_lab_ssh, req_team_net]"
    "status_changes (view ex_request_session) = []"
    by (simp_all add: ex_request_session_def ex_request_tables_def ex_tables_def)
  have ids: "pr_id req_done = 1" "pr_id req_team_ssh = 2" "pr_id req_lab_ssh = 3" "pr_id req_team_net = 4"
    "pr_status req_done = ''actioned''" "pr_status req_lab_ssh = ''pending''"
    "pr_status req_team_net = ''pending''"
    by (simp_all add: req_done_def req_team_ssh_def req_lab_ssh_def req_team_net_def)
  from update_request_swallows_conflict
         [where request = req_team_ssh and env = ex_env and session = ex_request_session
            and usr = mallory and c = "''ok''"] h1(1) h2 h3 h4
  obtain s' where s': "update_request ex_env ex_request_session req_team_ssh mallory ''actioned'' ''ok''
              = (Inr (), s')"
    and r: "requests (durable s')
             = map (\<lambda>r. if pr_id r = pr_id req_team_ssh then r\<lparr>pr_status := ''actioned''\<rparr> else r)
                   (requests (view ex_request_session))"
    and sc: "status_changes (durable s')
             = status_changes (view ex_request_session) @
               [\<lparr>sc_id = next_id (map sc_id (status_changes (view ex_request_session))),
                 sc_request_id = pr_id req_team_ssh, sc_user_id = u_id mallory,
                 sc_from_status = Some (pr_status req_team_ssh), sc_to_status = ''actioned'',
                 sc_change_at = utcnow ex_env\<rparr>]"
    and m: "permission_maps (durable s') = permission_maps (view ex_request_session)"
    by blast
  have c1: "map pr_status (requests (durable s')) = [''actioned'', ''actioned'', ''pending'', ''pending'']"
    unfolding r v using ids by simp
  have c2: "map sc_to_status (status_changes (durable s')) = [''actioned'']"
    unfolding sc v by simp
  have c3: "length (permission_maps (durable s')) = 3" unfolding m pm by simp
  have c4: "length (permission_maps (view ex_request_session)) = 3" unfolding pm by simp
  have "\<exists>s'. update_request ex_env ex_request_session req_team_ssh mallory ''actioned'' ''ok''
              = (Inr (), s')
         \<and> map pr_status (requests (durable s')) = [''actioned'', ''actioned'', ''pending'', ''pending'']
         \<and> map sc_to_status (status_changes (durable s')) = [''actioned'']
         \<and> length (permission_maps (durable s')) = 3"
    by (rule exI[of _ s']) (intro conjI s' c1 c2 c3)
  with h1(2) c4 show ?thesis by (intro conjI)
qed

lemma ex_owner_map_plain:
  "get_owners_by_grantable_permission ex_env ex_request_session False
   = Inr [(Perm ''net-ops'', [(''east'', [group_lab]), (''*'', [group_admins])]),
          (Perm ''net'', [(''east'', [group_lab]), (''*'', [group_admins])]),
          (Perm ''grouper.admin.permissions'', [(''*'', [group_admins])]),
          (Perm ''grouper.permission.grant'', [(''*'', [group_admins])]),
          (Perm ''ssh'', [(''*'', [group_admins])])]"
  by (simp add: get_owners_by_grantable_permission_def get_all_permissions_def
      permissions_by_name_def all_group_permissions_def dd_append_def dd_get_def py_any_def
      filter_grantable_permissions_def catalog_or_default_def grantable_of_grant_def
      split_once_def owners_extend_def owners_at_def merge_plugin_owners_def ex_defs)

lemma ex_mallory_cannot_approve:
  "can_approve_request ex_env ex_request_session req_team_net mallory None None = Inr {}"
  by (simp add: can_approve_request_def get_owner_arg_list_def ex_owner_map_plain)
     (simp add: ex_env_def mallory_def)

text \<open>
  C9, as the code has it. \<open>update_request\<close> never asks whether the acting user may approve
  the request. Whether the call returns or raises does not depend on the user. For every
  user, a call whose new status differs from the current one, whose auditor check passes
  and, when the new status is \<open>actioned\<close>, whose argument satisfies the assertion of
  \<open>grant_permission\<close>, returns normally with the status change, the comment, the new status
  and the audit entry committed, the mail to the requester sent and, for \<open>actioned\<close>, the
  grant stored. The example runs it for a user for whom \<open>can_approve_request\<close> is empty.
\<close>

theorem update_request_no_authorization:
  "fst (update_request env session request usr new_status c)
     = fst (update_request env session request usr2 new_status c)
   \<and> (pr_status request \<noteq> new_status
       \<and> (new_status = ''actioned'' \<and> p_audited (pr_permission request)
            \<longrightarrow> list_all (is_auditor env) (controllers env (pr_group request)))
       \<and> (new_status = ''actioned'' \<longrightarrow> ARGUMENT_VALIDATION env (pr_argument request))
      \<longrightarrow> (\<exists>s'. update_request env session request usr new_status c = (Inr (), s')
            \<and> requests (durable s')
                = map (\<lambda>r. if pr_id r = pr_id request then r\<lparr>pr_status := new_status\<rparr> else r)
                      (requests (view session))
            \<and> status_changes (durable s')
                = status_changes (view session) @
                  [\<lparr>sc_id = next_id (map sc_id (status_changes (view session))),
                    sc_request_id = pr_id request, sc_user_id = u_id usr,
                    sc_from_status = Some (pr_status request), sc_to_status = new_status,
                    sc_change_at = utcnow env\<rparr>]
            \<and> comments (durable s')
                = comments (view session) @
                  [\<lparr>c_obj_type = status_change_obj_type env,
                    c_obj_pk = next_id (map sc_id (status_changes (view session))),
                    c_user_id = u_id usr, c_comment = c, c_created_on = utcnow env\<rparr>]
            \<and> audit_log (durable s')
                = audit_log (view session) @
                  [\<lparr>al_actor_id = u_id usr, al_action = ''update_perm_request'',
                    al_description = ''updated permission request to status: '' @ new_status,
                    al_on_group_id = g_id (pr_group request),
                    al_on_user_id = u_id (pr_requester request),
                    al_on_permission_id = p_id (pr_permission request)\<rparr>]
            \<and> outbox s'
                = outbox session @
                  [\<lparr>em_recipients = {u_name (pr_requester request)},
                    em_subject = ''Re: '' @ render_subject env (p_name (pr_permission request))
                                             (g_name (pr_group request)),
                    em_template = (if new_status = ''actioned'' then ''permission_request_actioned''
                                   else ''permission_request_cancelled''),
                    em_context = [(''group_name'', Str (g_name (pr_group request))),
                                  (''action_taken_by'', Str (u_name usr)),
                                  (''reason'', Str c),
                                  (''permission_name'', Str (p_name (pr_permission request))),
                                  (''argument'', Str (pr_argument request))]\<rparr>]
            \<and> (new_status = ''actioned''
                 \<longrightarrow> list_ex (\<lambda>pm. pm_permission_id pm = p_id (pr_permission request)
                                    \<and> pm_group_id pm = g_id (pr_group request)
                                    \<and> pm_argument pm = pr_argument request)
                       (permission_maps (durable s')))))"
proof (intro conjI impI)
  show "fst (update_request env session request usr new_status c)
     = fst (update_request env session request usr2 new_status c)"
    by (rule update_request_outcome_user_independent)
next
  let ?r = "update_request env session request usr new_status c"
  assume a: "pr_status request \<noteq> new_status
       \<and> (new_status = ''actioned'' \<and> p_audited (pr_permission request)
            \<longrightarrow> list_all (is_auditor env) (controllers env (pr_group request)))
       \<and> (new_status = ''actioned'' \<longrightarrow> ARGUMENT_VALIDATION env (pr_argument request))"
  then have st: "pr_status request \<noteq> new_status"
    and au: "new_status = ''actioned'' \<and> p_audited (pr_permission request)
            \<longrightarrow> list_all (is_auditor env) (controllers env (pr_group request))"
    and ok: "new_status = ''actioned'' \<longrightarrow> ARGUMENT_VALIDATION env (pr_argument request)"
    by blast+
  have "fst ?r = Inr ()" by (rule update_request_returns[OF st au ok])
  then have res: "?r = (Inr (), snd ?r)" by (metis prod.collapse)
  note am = update_request_audit_and_mail[OF st au ok, of session usr c]
  have gr: "new_status = ''actioned''
                 \<longrightarrow> list_ex (\<lambda>pm. pm_permission_id pm = p_id (pr_permission request)
                                    \<and> pm_group_id pm = g_id (pr_group request)
                                    \<and> pm_argument pm = pr_argument request)
                       (permission_maps (durable (snd ?r)))"
  proof
    assume n: "new_status = ''actioned''"
    from st n have st': "pr_status request \<noteq> ''actioned''" by simp
    from au n have au': "p_audited (pr_permission request)
        \<longrightarrow> list_all (is_auditor env) (controllers env (pr_group request))" by simp
    from ok n have ok': "ARGUMENT_VALIDATION env (pr_argument request)" by simp
    from update_request_grant_present[OF st' au' ok', of session usr c] n
    show "list_ex (\<lambda>pm. pm_permission_id pm = p_id (pr_permission request)
                                    \<and> pm_group_id pm = g_id (pr_group request)
                                    \<and> pm_argument pm = pr_argument request)
                       (permission_maps (durable (snd ?r)))"
      by simp
  qed
  show "\<exists>s'. ?r = (Inr (), s')
            \<and> requests (durable s')
                = map (\<lambda>r. if pr_id r = pr_id request then r\<lparr>pr_status := new_status\<rparr> else r)
                      (requests (view session))
            \<and> status_changes (durable s')
                = status_changes (view session) @
                  [\<lparr>sc_id = next_id (map sc_id (status_changes (view session))),
                    sc_request_id = pr_id request, sc_user_id = u_id usr,
                    sc_from_status = Some (pr_status request), sc_to_status = new_status,
                    sc_change_at = utcnow env\<rparr>]
            \<and> comments (durable s')
                = comments (view session) @
                  [\<lparr>c_obj_type = status_change_obj_type env,
                    c_obj_pk = next_id (map sc_id (status_changes (view session))),
                    c_user_id = u_id usr, c_comment = c, c_created_on = utcnow env\<rparr>]
            \<and> audit_log (durable s')
                = audit_log (view session) @
                  [\<lparr>al_actor_id = u_id usr, al_action = ''update_perm_request'',
                    al_description = ''updated permission request to status: '' @ new_status,
                    al_on_group_id = g_id (pr_group request),
                    al_on_user_id = u_id (pr_requester request),
                    al_on_permission_id = p_id (pr_permission request)\<rparr>]
            \<and> outbox s'
                = outbox session @
                  [\<lparr>em_recipients = {u_name (pr_requester request)},
                    em_subject = ''Re: '' @ render_subject env (p_name (pr_permission request))
                                             (g_name (pr_group request)),
                    em_template = (if new_status = ''actioned'' then ''permission_request_actioned''
                                   else ''permission_request_cancelled''),
                    em_context = [(''group_name'', Str (g_name (pr_group request))),
                                  (''action_taken_by'', Str (u_name usr)),
                                  (''reason'', Str c),
                                  (''permission_name'', Str (p_name (pr_permission request))),
                                  (''argument'', Str (pr_argument request))]\<rparr>]
            \<and> (new_status = ''actioned''
                 \<longrightarrow> list_ex (\<lambda>pm. pm_permission_id pm = p_id (pr_permission request)
                                    \<and> pm_group_id pm = g_id (pr_group request)
                                    \<and> pm_argument pm = pr_argument request)
                       (permission_maps (durable s')))"
    apply (rule exI[of _ "snd ?r"])
    apply (intro conjI)
          apply (rule res)
         apply (rule update_request_durable_requests[OF st au])
        apply (rule update_request_durable_status_changes[OF st au])
       apply (rule update_request_durable_comments[OF st au])
      apply (rule am[THEN conjunct1])
     apply (rule am[THEN conjunct2])
    apply (rule gr)
    done
qed


theorem update_request_no_authorization_witness:
  "can_approve_request ex_env ex_request_session req_team_net mallory None None = Inr {}
   \<and> pr_status req_team_net = ''pending''
   \<and> (\<exists>s'. update_request ex_env ex_request_session req_team_net mallory ''actioned'' ''mine''
               = (Inr (), s')
         \<and> map pr_status (requests (durable s'))
             = [''actioned'', ''pending'', ''pending'', ''actioned'']
         \<and> map sc_user_id (status_changes (durable s')) = [2]
         \<and> map al_actor_id (audit_log (durable s')) = [2]
         \<and> map em_template (outbox s') = [''permission_request_actioned'']
         \<and> list_ex (\<lambda>pm. pm_permission_id pm = 1 \<and> pm_group_id pm = 1 \<and> pm_argument pm = ''east'')
              (permission_maps (durable s')))"
proof -
  have h1: "pr_status req_team_net \<noteq> ''actioned''" "pr_status req_team_net = ''pending''"
    by (simp_all add: req_team_net_def)
  have h2: "''actioned'' = ''actioned'' \<and> p_audited (pr_permission req_team_net)
            \<longrightarrow> list_all (is_auditor ex_env) (controllers ex_env (pr_group req_team_net))"
    by (simp add: req_team_net_def perm_net_def)
  have h3: "''actioned'' = ''actioned'' \<longrightarrow> ARGUMENT_VALIDATION ex_env (pr_argument req_team_net)"
    by (simp add: req_team_net_def ex_env_def)
  have v: "requests (view ex_request_session) = [req_done, req_team_ssh, req_lab_ssh, req_team_net]"
    "status_changes (view ex_request_session) = []"
    "audit_log (view ex_request_session) = []"
    "outbox ex_request_session = []"
    by (simp_all add: ex_request_session_def ex_request_tables_def ex_tables_def)
  have ids: "pr_id req_done = 1" "pr_id req_team_ssh = 2" "pr_id req_lab_ssh = 3" "pr_id req_team_net = 4"
    "pr_status req_done = ''actioned''" "pr_status req_team_ssh = ''pending''"
    "pr_status req_lab_ssh = ''pending''"
    "p_id (pr_permission req_team_net) = 1" "g_id (pr_group req_team_net) = 1"
    "pr_argument req_team_net = ''east''" "u_id mallory = 2"
    by (simp_all add: req_done_def req_team_ssh_def req_lab_ssh_def req_team_net_def
        perm_net_def group_team_def mallory_def)
  have hyp: "pr_status req_team_net \<noteq> ''actioned''
       \<and> (''actioned'' = ''actioned'' \<and> p_audited (pr_permission req_team_net)
            \<longrightarrow> list_all (is_auditor ex_env) (controllers ex_env (pr_group req_team_net)))
       \<and> (''actioned'' = ''actioned'' \<longrightarrow> ARGUMENT_VALIDATION ex_env (pr_argument req_team_net))"
    using h1(1) h2 h3 by (intro conjI)
  from update_request_no_authorization
         [where request = req_team_net and env = ex_env and session = ex_request_session
            and usr = mallory and ?usr2.0 = mallory and new_status = "''actioned''"
            and c = "''mine''", THEN conjunct2, THEN mp, OF hyp]
  obtain s' where s': "update_request ex_env ex_request_session req_team_net mallory ''actioned'' ''mine''
               = (Inr (), s')"
    and r: "requests (durable s')
                = map (\<lambda>r. if pr_id r = pr_id req_team_net then r\<lparr>pr_status := ''actioned''\<rparr> else r)
                      (requests (view ex_request_session))"
    and sc: "status_changes (durable s')
                = status_changes (view ex_request_session) @
                  [\<lparr>sc_id = next_id (map sc_id (status_changes (view ex_request_session))),
                    sc_request_id = pr_id req_team_net, sc_user_id = u_id mallory,
                    sc_from_status = Some (pr_status req_team_net), sc_to_status = ''actioned'',
                    sc_change_at = utcnow ex_env\<rparr>]"
    and al: "audit_log (durable s')
                = audit_log (view ex_request_session) @
                  [\<lparr>al_actor_id = u_id mallory, al_action = ''update_perm_request'',
                    al_description = ''updated permission request to status: '' @ ''actioned'',
                    al_on_group_id = g_id (pr_group req_team_net),
                    al_on_user_id = u_id (pr_requester req_team_net),
                    al_on_permission_id = p_id (pr_permission req_team_net)\<rparr>]"
    and ob: "outbox s'
                = outbox ex_request_session @
                  [\<lparr>em_recipients = {u_name (pr_requester req_team_net)},
                    em_subject = ''Re: '' @ render_subject ex_env (p_name (pr_permission req_team_net))
                                             (g_name (pr_group req_team_net)),
                    em_template = (if ''actioned'' = ''actioned'' then ''permission_request_actioned''
                                   else ''permission_request_cancelled''),
                    em_context = [(''group_name'', Str (g_name (pr_group req_team_net))),
                                  (''action_taken_by'', Str (u_name mallory)),
                                  (''reason'', Str ''mine''),
                                  (''permission_name'', Str (p_name (pr_permission req_team_net))),
                                  (''argument'', Str (pr_argument req_team_net))]\<rparr>]"
    and gp: "''actioned'' = ''actioned''
                 \<longrightarrow> list_ex (\<lambda>pm. pm_permission_id pm = p_id (pr_permission req_team_net)
                                    \<and> pm_group_id pm = g_id (pr_group req_team_net)
                                    \<and> pm_argument pm = pr_argument req_team_net)
                       (permission_maps (durable s'))"
    by blast
  have c1: "map pr_status (requests (durable s'))
             = [''actioned'', ''pending'', ''pending'', ''actioned'']"
    unfolding r v using ids by simp
  have c2: "map sc_user_id (status_changes (durable s')) = [2]"
    unfolding sc v using ids by simp
  have c3: "map al_actor_id (audit_log (durable s')) = [2]"
    unfolding al v using ids by simp
  have c4: "map em_template (outbox s') = [''permission_request_actioned'']"
    unfolding ob v by simp
  have c5: "list_ex (\<lambda>pm. pm_permission_id pm = 1 \<and> pm_group_id pm = 1 \<and> pm_argument pm = ''east'')
              (permission_maps (durable s'))"
    using gp ids by simp
  have "\<exists>s'. update_request ex_env ex_request_session req_team_net mallory ''actioned'' ''mine''
               = (Inr (), s')
         \<and> map pr_status (requests (durable s'))
             = [''actioned'', ''pending'', ''pending'', ''actioned'']
         \<and> map sc_user_id (status_changes (durable s')) = [2]
         \<and> map al_actor_id (audit_log (durable s')) = [2]
         \<and> map em_template (outbox s') = [''permission_request_actioned'']
         \<and> list_ex (\<lambda>pm. pm_permission_id pm = 1 \<and> pm_group_id pm = 1 \<and> pm_argument pm = ''east'')
              (permission_maps (durable s'))"
    by (rule exI[of _ s']) (intro conjI s' c1 c2 c3 c4 c5)
  with ex_mallory_cannot_approve h1(2) show ?thesis by (intro conjI)
qed

text \<open>
  The claim fails as stated for a request whose argument does not satisfy the assertion of
  \<open>grant_permission\<close>: the call to \<open>actioned\<close> passes the same-status and auditor checks and
  commits the new status with its status-change row, then the assertion fails; no grant is
  stored, no audit entry is written and no mail is sent.
\<close>

theorem update_request_malformed_argument_counterexample:
  "pr_status req_malformed = ''pending''
   \<and> \<not> p_audited (pr_permission req_malformed)
   \<and> \<not> ARGUMENT_VALIDATION ex_env (pr_argument req_malformed)
   \<and> fst (update_request ex_env ex_malformed_session req_malformed mallory ''actioned'' ''ok'')
       = Inl AssertionError
   \<and> map pr_status (requests (durable (snd
        (update_request ex_env ex_malformed_session req_malformed mallory ''actioned'' ''ok''))))
       = [''actioned'']
   \<and> length (status_changes (durable (snd
        (update_request ex_env ex_malformed_session req_malformed mallory ''actioned'' ''ok''))))
       = 1
   \<and> permission_maps (durable (snd
        (update_request ex_env ex_malformed_session req_malformed mallory ''actioned'' ''ok'')))
       = permission_maps ex_tables
   \<and> audit_log (durable (snd
        (update_request ex_env ex_malformed_session req_malformed mallory ''actioned'' ''ok'')))
       = []
   \<and> outbox (snd
        (update_request ex_env ex_malformed_session req_malformed mallory ''actioned'' ''ok''))
       = []"
  by (simp add: update_request_def grant_permission_def Let_def session_ops ex_defs
      req_malformed_def ex_malformed_session_def)

section \<open>Properties of the request listing\<close>

lemma py_slice_nonneg:
  assumes "0 \<le> start" "0 \<le> stop"
  shows "py_slice xs start stop = take (nat (stop - start)) (drop (nat start) xs)"
proof (cases "start \<le> int (length xs)")
  case True
  then show ?thesis using assms
    by (cases "stop \<le> int (length xs)")
       (auto simp: py_slice_def Let_def min_def nat_diff_distrib intro!: take_all[symmetric])
next
  case False
  then show ?thesis using assms by (simp add: py_slice_def Let_def min_def)
qed

lemma py_slice_length_nonneg:
  assumes "0 \<le> start" "0 \<le> stop"
  shows "length (py_slice xs start stop) \<le> nat (max 0 (stop - start))"
  using assms by (simp add: py_slice_nonneg)

lemma py_slice_empty_nonneg:
  assumes "0 \<le> start" "0 \<le> stop" "stop \<le> start"
  shows "py_slice xs start stop = []"
  using assms by (simp add: py_slice_nonneg)

lemma get_owners_by_grantable_permission_total:
  "\<exists>m. get_owners_by_grantable_permission env session separate_global = Inr m"
proof -
  let ?ap = "permissions_by_name (get_all_permissions session False)"
  have ap: "\<forall>(k, p)\<in>set ?ap. k = p_name p"
    using permissions_by_name_entries by blast
  from owners_of_groups_props
         [OF ap, of env session
            "fold (\<lambda>grant d. dd_append (g_id (gr_Group grant)) grant d)
                  (all_group_permissions (view session)) []"
            separate_global "filter g_enabled (groups (view session))" "[]"]
  obtain m where "owners_of_groups env session ?ap
            (fold (\<lambda>grant d. dd_append (g_id (gr_Group grant)) grant d)
                  (all_group_permissions (view session)) [])
            separate_global (filter g_enabled (groups (view session))) [] = Inr m"
    by auto
  then show ?thesis
    by (simp add: get_owners_by_grantable_permission_def Let_def)
qed

lemma approvable_requests_total:
  "\<exists>kept. approvable_requests env session owner group_ids obo rs = Inr kept"
proof (induction rs)
  case Nil
  then show ?case by simp
next
  case (Cons r rs)
  then obtain kept where "approvable_requests env session owner group_ids obo rs = Inr kept"
    by blast
  then show ?case
    by (simp add: can_approve_request_def get_owner_arg_list_def Let_def)
qed

lemma matching_requests_total:
  "\<exists>matching. matching_requests env session status owner requester obo_arg = Inr matching"
proof -
  obtain m where m: "(case obo_arg of
                 None \<Rightarrow> get_owners_by_grantable_permission env session False
               | Some m \<Rightarrow> Inr m) = Inr m"
    using get_owners_by_grantable_permission_total[of env session False]
    by (cases obo_arg) auto
  show ?thesis
  proof (cases owner)
    case None
    with m show ?thesis by (simp add: matching_requests_def Let_def)
  next
    case (Some ow)
    with m approvable_requests_total show ?thesis
      by (simp add: matching_requests_def Let_def)
  qed
qed


lemma approvable_requests_filter:
  "approvable_requests env session owner group_ids obo rs
   = Inr (filter (\<lambda>r. case can_approve_request env session r owner (Some group_ids) (Some obo) of
                          Inl e \<Rightarrow> False
                        | Inr ids \<Rightarrow> ids \<noteq> {}) rs)"
proof (induction rs)
  case Nil
  then show ?case by simp
next
  case (Cons r rs)
  obtain ids where ids: "can_approve_request env session r owner (Some group_ids) (Some obo) = Inr ids"
    by (simp add: can_approve_request_def get_owner_arg_list_def Let_def)
  show ?case by (simp add: Cons.IH ids)
qed

lemma matching_requests_shape:
  "\<exists>matching. matching_requests env session status owner requester obo_arg = Inr matching
     \<and> set matching \<subseteq> set (requests (view session))
     \<and> sorted (map pr_requested_at (rev matching))"
proof -
  define q2 where "q2 =
     (case requester of
        None \<Rightarrow> (case status of
                  None \<Rightarrow> requests (view session)
                | Some st \<Rightarrow> if st \<noteq> [] then filter (\<lambda>r. pr_status r = st) (requests (view session))
                             else requests (view session))
      | Some u \<Rightarrow> filter (\<lambda>r. u_id (pr_requester r) = u_id u)
                   (case status of
                      None \<Rightarrow> requests (view session)
                    | Some st \<Rightarrow> if st \<noteq> [] then filter (\<lambda>r. pr_status r = st) (requests (view session))
                                 else requests (view session)))"
  have sub: "set q2 \<subseteq> set (requests (view session))"
    by (auto simp: q2_def split: option.splits if_splits)
  obtain m where m: "(case obo_arg of
                 None \<Rightarrow> get_owners_by_grantable_permission env session False
               | Some m \<Rightarrow> Inr m) = Inr m"
    using get_owners_by_grantable_permission_total[of env session False]
    by (cases obo_arg) auto
  have sorted_filter_rev: "sorted (map pr_requested_at (rev (filter P (rev (sort_key pr_requested_at q2)))))"
    for P
    by (simp add: rev_filter sorted_filter)
  show ?thesis
  proof (cases owner)
    case None
    have "matching_requests env session status owner requester obo_arg
          = Inr (rev (sort_key pr_requested_at q2))"
      using m None by (simp add: matching_requests_def Let_def q2_def)
    moreover have "sorted (map pr_requested_at (rev (rev (sort_key pr_requested_at q2))))"
      by simp
    ultimately show ?thesis using sub by auto
  next
    case (Some ow)
    have "matching_requests env session status owner requester obo_arg
          = approvable_requests env session ow
              (set (map (\<lambda>(g, _). g_id g) (groups_by_user env ow))) m
              (rev (sort_key pr_requested_at q2))"
      using m Some by (simp add: matching_requests_def Let_def q2_def)
    then show ?thesis
      using sub sorted_filter_rev
      by (auto simp: approvable_requests_filter simp del: rev_filter set_map)
  qed
qed

text \<open>
  C10, as the code has it. \<open>get_requests\<close> always returns. The list it returns is the
  slice \<open>[offset:limit]\<close> of the matching requests, which are requests of the session,
  newest first; the total it returns is the number of all matching requests. For an offset
  and a limit that are not negative, the slice is the \<open>limit - offset\<close> requests after the
  first \<open>offset\<close>: it has at most \<open>max 0 (limit - offset)\<close> entries and is empty when
  \<open>limit \<le> offset\<close>.
\<close>

theorem get_requests_slice:
  "\<exists>matching R.
      matching_requests env session status owner requester obo_arg = Inr matching
      \<and> set matching \<subseteq> set (requests (view session))
      \<and> sorted (map pr_requested_at (rev matching))
      \<and> get_requests env session status limit offset owner requester obo_arg
          = Inr (R, length matching)
      \<and> rq_requests R = py_slice matching offset limit
      \<and> (0 \<le> offset \<and> 0 \<le> limit
           \<longrightarrow> rq_requests R = take (nat (limit - offset)) (drop (nat offset) matching)
               \<and> length (rq_requests R) \<le> nat (max 0 (limit - offset))
               \<and> (limit \<le> offset \<longrightarrow> rq_requests R = []))"
proof -
  from matching_requests_shape[of env session status owner requester obo_arg]
  obtain matching where mt: "matching_requests env session status owner requester obo_arg = Inr matching"
    and sub: "set matching \<subseteq> set (requests (view session))"
    and srt: "sorted (map pr_requested_at (rev matching))"
    by blast
  obtain R where R: "get_requests env session status limit offset owner requester obo_arg
          = Inr (R, length matching)" and Rr: "rq_requests R = py_slice matching offset limit"
    using mt by (simp add: get_requests_def Let_def)
  have b: "0 \<le> offset \<and> 0 \<le> limit
           \<longrightarrow> rq_requests R = take (nat (limit - offset)) (drop (nat offset) matching)
               \<and> length (rq_requests R) \<le> nat (max 0 (limit - offset))
               \<and> (limit \<le> offset \<longrightarrow> rq_requests R = [])"
    using py_slice_nonneg[of offset limit matching] py_slice_length_nonneg[of offset limit matching]
      py_slice_empty_nonneg[of offset limit matching]
    unfolding Rr by blast
  show ?thesis
    apply (rule exI[of _ matching])
    apply (rule exI[of _ R])
    apply (intro conjI mt sub srt R Rr)
    using b apply blast
    done
qed


lemma ex_pending_requests:
  "matching_requests ex_env ex_request_session (Some ''pending'') None None None
   = Inr [req_team_net, req_lab_ssh, req_team_ssh]"
proof -
  have "requests (view ex_request_session) = [req_done, req_team_ssh, req_lab_ssh, req_team_net]"
    by (simp add: ex_request_session_def ex_request_tables_def ex_tables_def)
  moreover have "pr_status req_done = ''actioned''" "pr_status req_team_ssh = ''pending''"
    "pr_status req_lab_ssh = ''pending''" "pr_status req_team_net = ''pending''"
    "pr_requested_at req_team_ssh = 20" "pr_requested_at req_lab_ssh = 30"
    "pr_requested_at req_team_net = 40"
    by (simp_all add: req_done_def req_team_ssh_def req_lab_ssh_def req_team_net_def)
  ultimately show ?thesis
    by (simp add: matching_requests_def ex_owner_map_plain)
qed

theorem get_requests_slice_witness:
  "(\<exists>R. get_requests ex_env ex_request_session (Some ''pending'') 3 1 None None None = Inr (R, 3)
        \<and> rq_requests R = [req_lab_ssh, req_team_ssh]
        \<and> length (rq_requests R) \<le> nat (max 0 (3 - 1)))
   \<and> (\<exists>R. get_requests ex_env ex_request_session (Some ''pending'') 1 2 None None None = Inr (R, 3)
        \<and> rq_requests R = [])"
proof -
  have nn: "(0::int) \<le> 1 \<and> (0::int) \<le> 3" "(0::int) \<le> 2 \<and> (0::int) \<le> 1" by simp_all
  from get_requests_slice
         [where env = ex_env and session = ex_request_session and status = "Some ''pending''"
            and limit = 3 and offset = 1 and owner = None and requester = None and obo_arg = None]
  obtain matching R where
    m: "matching_requests ex_env ex_request_session (Some ''pending'') None None None = Inr matching"
    and g: "get_requests ex_env ex_request_session (Some ''pending'') 3 1 None None None
            = Inr (R, length matching)"
    and b: "0 \<le> (1::int) \<and> 0 \<le> (3::int)
           \<longrightarrow> rq_requests R = take (nat (3 - 1)) (drop (nat 1) matching)
               \<and> length (rq_requests R) \<le> nat (max 0 (3 - 1))
               \<and> ((3::int) \<le> 1 \<longrightarrow> rq_requests R = [])"
    by blast
  from m have mv: "matching = [req_team_net, req_lab_ssh, req_team_ssh]"
    by (simp add: ex_pending_requests)
  from b nn(1) have r1: "rq_requests R = take (nat (3 - 1)) (drop (nat 1) matching)"
    and r2: "length (rq_requests R) \<le> nat (max 0 (3 - 1))" by blast+
  have r1': "rq_requests R = [req_lab_ssh, req_team_ssh]" unfolding r1 mv by simp
  have g': "get_requests ex_env ex_request_session (Some ''pending'') 3 1 None None None = Inr (R, 3)"
    using g unfolding mv by simp
  have first: "\<exists>R. get_requests ex_env ex_request_session (Some ''pending'') 3 1 None None None = Inr (R, 3)
        \<and> rq_requests R = [req_lab_ssh, req_team_ssh]
        \<and> length (rq_requests R) \<le> nat (max 0 (3 - 1))"
    by (rule exI[of _ R]) (intro conjI g' r1' r2)
  from get_requests_slice
         [where env = ex_env and session = ex_request_session and status = "Some ''pending''"
            and limit = 1 and offset = 2 and owner = None and requester = None and obo_arg = None]
  obtain matching2 R2 where
    m2: "matching_requests ex_env ex_request_session (Some ''pending'') None None None = Inr matching2"
    and g2: "get_requests ex_env ex_request_session (Some ''pending'') 1 2 None None None
            = Inr (R2, length matching2)"
    and b2: "0 \<le> (2::int) \<and> 0 \<le> (1::int)
           \<longrightarrow> rq_requests R2 = take (nat (1 - 2)) (drop (nat 2) matching2)
               \<and> length (rq_requests R2) \<le> nat (max 0 (1 - 2))
               \<and> ((1::int) \<le> 2 \<longrightarrow> rq_requests R2 = [])"
    by blast
  from m2 have mv2: "matching2 = [req_team_net, req_lab_ssh, req_team_ssh]"
    by (simp add: ex_pending_requests)
  from b2 nn(2) have e2: "rq_requests R2 = []" by simp
  have g2': "get_requests ex_env ex_request_session (Some ''pending'') 1 2 None None None = Inr (R2, 3)"
    using g2 unfolding mv2 by simp
  have second: "\<exists>R. get_requests ex_env ex_request_session (Some ''pending'') 1 2 None None None = Inr (R, 3)
        \<and> rq_requests R = []"
    by (rule exI[of _ R2]) (intro conjI g2' e2)
  from first second show ?thesis by (rule conjI)
qed


text \<open>
  The bound of the claim fails for a negative limit, which counts from the end of the list:
  with three matching requests, offset \<open>1\<close> and limit \<open>-1\<close> give one request, although
  the offset is not below the limit.
\<close>

theorem get_requests_negative_limit_counterexample:
  "get_requests ex_env ex_request_session (Some ''pending'') (- 1) 1 None None None
     = Inr (\<lparr>rq_requests = [req_lab_ssh], rq_status_change_by_request_id = [],
              rq_comment_by_status_change_id = []\<rparr>, 3)
   \<and> (- 1 :: int) \<le> 1
   \<and> nat (max 0 (- 1 - 1 :: int)) = 0
   \<and> length [req_lab_ssh] = 1"
proof -
  have "status_changes (view ex_request_session) = []" "comments (view ex_request_session) = []"
    by (simp_all add: ex_request_session_def ex_request_tables_def ex_tables_def)
  then show ?thesis
    by (simp add: get_requests_def ex_pending_requests py_slice_def)
qed

end
